theory Spec2Isabelle
  imports Complex_Main
begin

section \<open>Conventions of the embedding\<close>

text \<open>
  The repository is three small C++ programs (\<^verbatim>\<open>Problem1\<close>, \<^verbatim>\<open>Problem2\<close>,
  \<^verbatim>\<open>extracredit\<close>) whose numerical core is embedded here function by function.

  \<^item> A C++ \<^verbatim>\<open>double\<close> is modelled at the level of detail the function needs.
    \<^item> In the coordinate transform and the rasterizer of \<^verbatim>\<open>Problem1\<close> it is a \<^typ>\<open>real\<close>:
      arithmetic is exact, there is no rounding and no overflow. The constructor of the
      transform divides by \<open>gridSize - 1\<close> (no transform is built when that is zero) and
      \<^verbatim>\<open>canvasToGrid\<close> divides by the spacing (the statements about it assume a spacing
      that is not zero).
    \<^item> In \<^verbatim>\<open>Grid::calculateBoundingCircles\<close> the running minimum starts at the largest
      \<^verbatim>\<open>double\<close>, so the distances are values of the type \<open>dbl\<close> below: finite results are
      exact, and a result too large for a \<^verbatim>\<open>double\<close> is an infinity (\<open>overflow\<close>).
    \<^item> In the Newton loop of \<^verbatim>\<open>FitCircle\<close> a divisor can be zero; its variables are
      values of \<open>dbl\<close>, with IEEE 754 rules for the infinities and NaN and exact
      arithmetic on finite values.
    \<^item> In \<^verbatim>\<open>FitEllipse\<close> the guards compare computed determinants with small bounds, so
      rounding matters: the embedding takes the rounding \<open>rnd\<close> of the arithmetic as a
      parameter and applies it to the exact result of every operation, library call and
      decimal literal. What is proved holds for every rounding; \<open>binary64\<close> below is
      the rounding of IEEE 754 double precision (to nearest, ties to even), and
      \<open>\<lambda>v. v\<close> is exact arithmetic. The values stay finite (no overflow, no NaN).
  \<^item> A C++ \<^verbatim>\<open>int\<close> is an \<^typ>\<open>int\<close>. The conversion \<^verbatim>\<open>static_cast<int>(double)\<close> is
    undefined when the truncated value does not fit into 32 bits; it is modelled by
    \<open>static_cast_int\<close>, which returns \<open>None\<close> there.
  \<^item> A \<^verbatim>\<open>for\<close> loop with an integer counter is the recursive function \<open>for_lt\<close> or
    \<open>for_le\<close>; a range-based \<^verbatim>\<open>for\<close> over a vector is a \<^const>\<open>fold\<close> over the list.
  \<^item> A function that mutates the grid through a reference returns the new grid.
\<close>

section \<open>Doubles with special values\<close>

text \<open>The values a \<^verbatim>\<open>double\<close> variable can hold: a finite number, an infinity or NaN.
  Arithmetic on finite values is exact; the special values follow IEEE 754. There is one
  zero: a quotient by zero takes the sign of its numerator.\<close>

datatype dbl = Fin real | PInf | NInf | NaN

fun dbl_neg :: "dbl \<Rightarrow> dbl" where
  "dbl_neg (Fin a) = Fin (- a)"
| "dbl_neg PInf = NInf"
| "dbl_neg NInf = PInf"
| "dbl_neg NaN = NaN"

fun dbl_add :: "dbl \<Rightarrow> dbl \<Rightarrow> dbl" where
  "dbl_add NaN b = NaN"
| "dbl_add a NaN = NaN"
| "dbl_add (Fin a) (Fin b) = Fin (a + b)"
| "dbl_add PInf NInf = NaN"
| "dbl_add NInf PInf = NaN"
| "dbl_add PInf b = PInf"
| "dbl_add a PInf = PInf"
| "dbl_add NInf b = NInf"
| "dbl_add a NInf = NInf"

fun dbl_mul :: "dbl \<Rightarrow> dbl \<Rightarrow> dbl" where
  "dbl_mul NaN b = NaN"
| "dbl_mul a NaN = NaN"
| "dbl_mul (Fin a) (Fin b) = Fin (a * b)"
| "dbl_mul (Fin a) PInf = (if a = 0 then NaN else if 0 < a then PInf else NInf)"
| "dbl_mul (Fin a) NInf = (if a = 0 then NaN else if 0 < a then NInf else PInf)"
| "dbl_mul PInf (Fin b) = (if b = 0 then NaN else if 0 < b then PInf else NInf)"
| "dbl_mul NInf (Fin b) = (if b = 0 then NaN else if 0 < b then NInf else PInf)"
| "dbl_mul PInf PInf = PInf"
| "dbl_mul PInf NInf = NInf"
| "dbl_mul NInf PInf = NInf"
| "dbl_mul NInf NInf = PInf"

fun dbl_div :: "dbl \<Rightarrow> dbl \<Rightarrow> dbl" where
  "dbl_div NaN b = NaN"
| "dbl_div a NaN = NaN"
| "dbl_div (Fin a) (Fin b) =
     (if b \<noteq> 0 then Fin (a / b) else if a = 0 then NaN else if 0 < a then PInf else NInf)"
| "dbl_div (Fin a) PInf = Fin 0"
| "dbl_div (Fin a) NInf = Fin 0"
| "dbl_div PInf (Fin b) = (if 0 \<le> b then PInf else NInf)"
| "dbl_div NInf (Fin b) = (if 0 \<le> b then NInf else PInf)"
| "dbl_div PInf b = NaN"
| "dbl_div NInf b = NaN"

fun dbl_abs :: "dbl \<Rightarrow> dbl" where
  "dbl_abs (Fin a) = Fin \<bar>a\<bar>"
| "dbl_abs PInf = PInf"
| "dbl_abs NInf = PInf"
| "dbl_abs NaN = NaN"

text \<open>A comparison with NaN is false.\<close>

fun dbl_less :: "dbl \<Rightarrow> dbl \<Rightarrow> bool" where
  "dbl_less NaN b = False"
| "dbl_less a NaN = False"
| "dbl_less (Fin a) (Fin b) = (a < b)"
| "dbl_less a NInf = False"
| "dbl_less PInf b = False"
| "dbl_less NInf b = True"
| "dbl_less a PInf = True"

instantiation dbl :: "{plus, minus, uminus, times, inverse, abs, ord}"
begin

definition plus_dbl :: "dbl \<Rightarrow> dbl \<Rightarrow> dbl" where
  "plus_dbl a b = dbl_add a b"

definition uminus_dbl :: "dbl \<Rightarrow> dbl" where
  "uminus_dbl a = dbl_neg a"

definition minus_dbl :: "dbl \<Rightarrow> dbl \<Rightarrow> dbl" where
  "minus_dbl a b = dbl_add a (dbl_neg b)"

definition times_dbl :: "dbl \<Rightarrow> dbl \<Rightarrow> dbl" where
  "times_dbl a b = dbl_mul a b"

definition divide_dbl :: "dbl \<Rightarrow> dbl \<Rightarrow> dbl" where
  "divide_dbl a b = dbl_div a b"

definition inverse_dbl :: "dbl \<Rightarrow> dbl" where
  "inverse_dbl a = dbl_div (Fin 1) a"

definition abs_dbl :: "dbl \<Rightarrow> dbl" where
  "abs_dbl a = dbl_abs a"

definition less_dbl :: "dbl \<Rightarrow> dbl \<Rightarrow> bool" where
  "less_dbl a b = dbl_less a b"

definition less_eq_dbl :: "dbl \<Rightarrow> dbl \<Rightarrow> bool" where
  "less_eq_dbl a b = (dbl_less a b \<or> (a = b \<and> a \<noteq> NaN))"

instance ..

end

section \<open>Rounding to double precision\<close>

text \<open>The integer nearest to \<open>q\<close>, the even one of the two when \<open>q\<close> lies halfway.\<close>

definition round_to_even :: "real \<Rightarrow> int" where
  "round_to_even q =
     (let n = \<lfloor>q\<rfloor>;
          f = q - of_int n
      in if f < 1 / 2 then n
         else if 1 / 2 < f then n + 1
         else if even n then n else n + 1)"

text \<open>The \<^verbatim>\<open>double\<close> nearest to the real number \<open>v\<close>: the nearest multiple of the spacing
  \<open>2 powi e\<close> of the doubles around \<open>v\<close>, which lies 52 binary places below the leading
  bit of \<open>v\<close> and is \<open>2 powi (- 1074)\<close> for the subnormal numbers. Overflow is not part of
  this function: a value of magnitude \<open>2 ^ 1024\<close> or more has no finite \<^verbatim>\<open>double\<close>.\<close>

definition binary64 :: "real \<Rightarrow> real" where
  "binary64 v =
     (if v = 0 then 0
      else
        let e = max (\<lfloor>log 2 \<bar>v\<bar>\<rfloor> - 52) (- 1074)
        in of_int (round_to_even (v / 2 powi e)) * 2 powi e)"

section \<open>Problem1/Geometry.h\<close>

text \<open>\<^verbatim>\<open>class Point2D { double x; double y; }\<close>. The struct \<^verbatim>\<open>Point\<close> of
  \<^verbatim>\<open>Problem2/Geometry.h\<close> and \<^verbatim>\<open>extracredit/Geometry.h\<close> has the same two fields
  and is the same record here.\<close>

record Point2D =
  x :: real
  y :: real

type_synonym Point = Point2D

definition distanceTo :: "Point2D \<Rightarrow> Point2D \<Rightarrow> real" where
  "distanceTo this other =
     (let dx = x this - x other;
          dy = y this - y other
      in sqrt (dx * dx + dy * dy))"

text \<open>\<^verbatim>\<open>class Circle { Point2D center; double radius; }\<close>; the default constructor
  \<^verbatim>\<open>Circle()\<close> gives center \<open>(0, 0)\<close> and radius \<open>0\<close>.\<close>

record Circle =
  center :: Point2D
  radius :: real

definition Circle_default :: Circle where
  "Circle_default = \<lparr>center = \<lparr>x = 0, y = 0\<rparr>, radius = 0\<rparr>"

definition isValid :: "Circle \<Rightarrow> bool" where
  "isValid c = (radius c > 0)"

record GridPoint =
  gridPosition :: Point2D
  canvasPosition :: Point2D
  highlighted :: bool

definition GridPoint_init :: "Point2D \<Rightarrow> Point2D \<Rightarrow> GridPoint" where
  "GridPoint_init grid canvas =
     \<lparr>gridPosition = grid, canvasPosition = canvas, highlighted = False\<rparr>"

record CoordinateTransform =
  gridSpacing :: real
  gridOrigin :: Point2D
  gridSize :: int

text \<open>The constructor of \<^verbatim>\<open>CoordinateTransform\<close>. With \<^verbatim>\<open>gridSz == 1\<close> the source divides
  by zero and every field of the transform is infinite or NaN; that transform is no
  value of the model (\<open>None\<close>).\<close>

definition CoordinateTransform_init :: "int \<Rightarrow> int \<Rightarrow> int \<Rightarrow> int \<Rightarrow> CoordinateTransform option" where
  "CoordinateTransform_init gridSz canvasWidth canvasHeight padding =
     (let availableWidth = canvasWidth - 2 * padding;
          availableHeight = canvasHeight - 2 * padding;
          minDimension = min availableWidth availableHeight
      in if gridSz - 1 = 0 then None
         else
           let spacing = real_of_int minDimension / real_of_int (gridSz - 1)
           in Some \<lparr>gridSpacing = spacing,
                     gridOrigin =
                       \<lparr>x = real_of_int padding
                              + (real_of_int availableWidth - spacing * real_of_int (gridSz - 1)) / 2,
                        y = real_of_int padding
                              + (real_of_int availableHeight - spacing * real_of_int (gridSz - 1)) / 2\<rparr>,
                     gridSize = gridSz\<rparr>)"

definition canvasToGrid :: "CoordinateTransform \<Rightarrow> Point2D \<Rightarrow> Point2D" where
  "canvasToGrid t canvas =
     \<lparr>x = (x canvas - x (gridOrigin t)) / gridSpacing t,
      y = (y canvas - y (gridOrigin t)) / gridSpacing t\<rparr>"

definition gridToCanvas :: "CoordinateTransform \<Rightarrow> Point2D \<Rightarrow> Point2D" where
  "gridToCanvas t grid =
     \<lparr>x = x (gridOrigin t) + x grid * gridSpacing t,
      y = y (gridOrigin t) + y grid * gridSpacing t\<rparr>"

definition canvasDistanceToGrid :: "CoordinateTransform \<Rightarrow> real \<Rightarrow> real" where
  "canvasDistanceToGrid t canvasDistance = canvasDistance / gridSpacing t"

definition gridDistanceToCanvas :: "CoordinateTransform \<Rightarrow> real \<Rightarrow> real" where
  "gridDistanceToCanvas t gridDistance = gridDistance * gridSpacing t"

section \<open>Counted loops and the conversion to int\<close>

text \<open>\<^verbatim>\<open>for (int i = lo; i < n; ++i) body\<close> and \<^verbatim>\<open>for (int i = lo; i <= m; ++i) body\<close>,
  the body a function of the counter and the state.\<close>

function for_lt :: "int \<Rightarrow> int \<Rightarrow> (int \<Rightarrow> 's \<Rightarrow> 's) \<Rightarrow> 's \<Rightarrow> 's" where
  "for_lt i n body s = (if i < n then for_lt (i + 1) n body (body i s) else s)"
  by pat_completeness auto
termination
  by (relation "measure (\<lambda>(i, n, body, s). nat (n - i))") auto

function for_le :: "int \<Rightarrow> int \<Rightarrow> (int \<Rightarrow> 's \<Rightarrow> 's) \<Rightarrow> 's \<Rightarrow> 's" where
  "for_le i m body s = (if i \<le> m then for_le (i + 1) m body (body i s) else s)"
  by pat_completeness auto
termination
  by (relation "measure (\<lambda>(i, m, body, s). nat (m + 1 - i))") auto

declare for_lt.simps [simp del] for_le.simps [simp del]

definition INT_MIN :: int where
  "INT_MIN = - 2147483648"

definition INT_MAX :: int where
  "INT_MAX = 2147483647"

text \<open>\<^verbatim>\<open>static_cast<int>(d)\<close>: the value is truncated towards zero; the behaviour is
  undefined (\<open>None\<close>) when the truncated value is not an \<^verbatim>\<open>int\<close>.\<close>

definition static_cast_int :: "real \<Rightarrow> int option" where
  "static_cast_int d =
     (let t = (if 0 \<le> d then \<lfloor>d\<rfloor> else \<lceil>d\<rceil>)
      in if INT_MIN \<le> t \<and> t \<le> INT_MAX then Some t else None)"

text \<open>\<^verbatim>\<open>std::floor\<close> and \<^verbatim>\<open>std::ceil\<close> return a \<^verbatim>\<open>double\<close>.\<close>

definition std_floor :: "real \<Rightarrow> real" where
  "std_floor d = real_of_int \<lfloor>d\<rfloor>"

definition std_ceil :: "real \<Rightarrow> real" where
  "std_ceil d = real_of_int \<lceil>d\<rceil>"

section \<open>Problem1/Grid.h and Problem1/Config.h\<close>

text \<open>\<^verbatim>\<open>class Grid { std::vector<GridPoint> points; int size; CoordinateTransform transform; }\<close>.
  The field \<^verbatim>\<open>size\<close> is \<open>grid_size\<close> here.\<close>

record Grid =
  points :: "GridPoint list"
  grid_size :: int
  transform :: CoordinateTransform

text \<open>The constructor appends the points row by row, the point of row \<open>row\<close> and column
  \<open>col\<close> at grid position \<open>(col, row)\<close>.\<close>

definition Grid_init :: "int \<Rightarrow> int \<Rightarrow> int \<Rightarrow> int \<Rightarrow> Grid option" where
  "Grid_init gridSz canvasWidth canvasHeight padding =
     (case CoordinateTransform_init gridSz canvasWidth canvasHeight padding of
        None \<Rightarrow> None
      | Some t \<Rightarrow>
          Some \<lparr>points =
                  for_lt 0 gridSz (\<lambda>row ps.
                    for_lt 0 gridSz (\<lambda>col ps.
                      let gridPos = \<lparr>x = real_of_int col, y = real_of_int row\<rparr>;
                          canvasPos = gridToCanvas t gridPos
                      in ps @ [GridPoint_init gridPos canvasPos]) ps) [],
                grid_size = gridSz,
                transform = t\<rparr>)"

definition resetHighlights :: "Grid \<Rightarrow> Grid" where
  "resetHighlights g = g\<lparr>points := map (\<lambda>point. point\<lparr>highlighted := False\<rparr>) (points g)\<rparr>"

text \<open>\<^verbatim>\<open>grid.getPointMutable(row, col).highlighted = v\<close>: the write goes to the element
  \<^verbatim>\<open>points[row * size + col]\<close>. The loops below only call it with
  \<open>0 \<le> row < size\<close> and \<open>0 \<le> col < size\<close>.\<close>

definition point_index :: "Grid \<Rightarrow> int \<Rightarrow> int \<Rightarrow> nat" where
  "point_index g row col = nat (row * grid_size g + col)"

definition getPoint :: "Grid \<Rightarrow> int \<Rightarrow> int \<Rightarrow> GridPoint" where
  "getPoint g row col = points g ! point_index g row col"

definition set_highlighted :: "Grid \<Rightarrow> int \<Rightarrow> int \<Rightarrow> bool \<Rightarrow> Grid" where
  "set_highlighted g row col v =
     g\<lparr>points := (points g)[point_index g row col := (getPoint g row col)\<lparr>highlighted := v\<rparr>]\<rparr>"

definition RASTERIZATION_THRESHOLD :: real where
  "RASTERIZATION_THRESHOLD = 0.7071"

definition DBL_MAX :: real where
  "DBL_MAX = (2 - 1 / 2 ^ 52) * 2 ^ 1023"

text \<open>\<^verbatim>\<open>Point2D::distanceTo\<close> as \<^verbatim>\<open>calculateBoundingCircles\<close> needs it, with overflow: the
  result of an operation on finite values is exact when a \<^verbatim>\<open>double\<close> can hold it; a value
  beyond the largest \<^verbatim>\<open>double\<close> becomes that \<^verbatim>\<open>double\<close> when it is nearer to it than to
  \<open>2 ^ 1024\<close>, and an infinity otherwise. \<^verbatim>\<open>std::sqrt\<close> of \<open>+\<infinity>\<close> is \<open>+\<infinity>\<close>.\<close>

definition overflow :: "dbl \<Rightarrow> dbl" where
  "overflow d =
     (case d of
        Fin v \<Rightarrow>
          if 2 ^ 1024 - 2 ^ 970 \<le> \<bar>v\<bar> then (if 0 < v then PInf else NInf)
          else if DBL_MAX < \<bar>v\<bar> then (if 0 < v then Fin DBL_MAX else Fin (- DBL_MAX))
          else Fin v
      | _ \<Rightarrow> d)"

fun std_sqrt :: "dbl \<Rightarrow> dbl" where
  "std_sqrt (Fin v) = (if 0 \<le> v then Fin (sqrt v) else NaN)"
| "std_sqrt PInf = PInf"
| "std_sqrt NInf = NaN"
| "std_sqrt NaN = NaN"

definition distanceTo_dbl :: "Point2D \<Rightarrow> Point2D \<Rightarrow> dbl" where
  "distanceTo_dbl this other =
     (let dx = overflow (Fin (x this) - Fin (x other));
          dy = overflow (Fin (y this) - Fin (y other))
      in std_sqrt (overflow (overflow (dx * dx) + overflow (dy * dy))))"

text \<open>\<^verbatim>\<open>std::min(a, b)\<close> is \<^verbatim>\<open>(b < a) ? b : a\<close> and \<^verbatim>\<open>std::max(a, b)\<close> is
  \<^verbatim>\<open>(a < b) ? b : a\<close>.\<close>

definition std_min :: "dbl \<Rightarrow> dbl \<Rightarrow> dbl" where
  "std_min a b = (if b < a then b else a)"

definition std_max :: "dbl \<Rightarrow> dbl \<Rightarrow> dbl" where
  "std_max a b = (if a < b then b else a)"

text \<open>A \<^verbatim>\<open>Circle\<close> whose radius is a value of \<open>dbl\<close>: the circles that
  \<^verbatim>\<open>calculateBoundingCircles\<close> writes.\<close>

record Circle_dbl =
  center_dbl :: Point2D
  radius_dbl :: dbl

text \<open>\<^verbatim>\<open>Grid::calculateBoundingCircles(center, innerCircle, outerCircle)\<close>. The two output
  parameters are passed in and returned: the result is the returned flag and the two
  circles as the call leaves them.\<close>

definition calculateBoundingCircles ::
    "Grid \<Rightarrow> Point2D \<Rightarrow> Circle_dbl \<Rightarrow> Circle_dbl \<Rightarrow> bool \<times> Circle_dbl \<times> Circle_dbl" where
  "calculateBoundingCircles g c innerCircle outerCircle =
     (let (minDistance, maxDistance, hasHighlightedPoints) =
            fold (\<lambda>point (minDistance, maxDistance, hasHighlightedPoints).
                    if highlighted point then
                      let dist = distanceTo_dbl c (gridPosition point)
                      in (std_min minDistance dist, std_max maxDistance dist, True)
                    else (minDistance, maxDistance, hasHighlightedPoints))
                 (points g) (Fin DBL_MAX, Fin 0, False)
      in if \<not> hasHighlightedPoints then (False, innerCircle, outerCircle)
         else (True, \<lparr>center_dbl = c, radius_dbl = minDistance\<rparr>,
                     \<lparr>center_dbl = c, radius_dbl = maxDistance\<rparr>))"

definition getHighlightedPoints :: "Grid \<Rightarrow> Point2D list" where
  "getHighlightedPoints g = map gridPosition (filter highlighted (points g))"

section \<open>Problem1/Rasterizer.h\<close>

definition rasterize_point :: "Circle \<Rightarrow> real \<Rightarrow> int \<Rightarrow> int \<Rightarrow> Grid \<Rightarrow> Grid" where
  "rasterize_point circle threshold row col g =
     (let point = getPoint g row col;
          distToCenter = distanceTo (center circle) (gridPosition point);
          distToBoundary = \<bar>distToCenter - radius circle\<bar>
      in set_highlighted g row col (distToBoundary \<le> threshold))"

definition rasterize :: "Grid \<Rightarrow> Circle \<Rightarrow> Grid" where
  "rasterize grid circle =
     (if \<not> isValid circle then grid
      else
        let sz = grid_size grid;
            threshold = RASTERIZATION_THRESHOLD
        in for_lt 0 sz (\<lambda>row g. for_lt 0 sz (\<lambda>col g. rasterize_point circle threshold row col g) g) grid)"

text \<open>\<^verbatim>\<open>rasterizeOptimized\<close>, with the conversion \<^verbatim>\<open>static_cast<int>\<close> of its four bounds as a
  parameter. \<open>rasterizeOptimized\<close> is the function under the conversion of the C++
  standard (\<open>static_cast_int\<close>): it has no defined result (\<open>None\<close>) when a bound is not an
  \<^verbatim>\<open>int\<close>. \<open>cvttsd2si\<close> is the conversion as the x86-64 instruction of that name performs
  it, which compilers for that platform emit: a value out of range becomes \<^verbatim>\<open>INT_MIN\<close>.\<close>

definition rasterizeOptimized_with :: "(real \<Rightarrow> int option) \<Rightarrow> Grid \<Rightarrow> Circle \<Rightarrow> Grid option" where
  "rasterizeOptimized_with cast grid circle =
     (if \<not> isValid circle then Some grid
      else
        let sz = grid_size grid;
            threshold = RASTERIZATION_THRESHOLD
        in case cast (std_floor (y (center circle) - radius circle - threshold)) of
             None \<Rightarrow> None
           | Some a \<Rightarrow>
         (case cast (std_ceil (y (center circle) + radius circle + threshold)) of
             None \<Rightarrow> None
           | Some b \<Rightarrow>
         (case cast (std_floor (x (center circle) - radius circle - threshold)) of
             None \<Rightarrow> None
           | Some c \<Rightarrow>
         (case cast (std_ceil (x (center circle) + radius circle + threshold)) of
             None \<Rightarrow> None
           | Some d \<Rightarrow>
               let minRow = max 0 a;
                   maxRow = min (sz - 1) b;
                   minCol = max 0 c;
                   maxCol = min (sz - 1) d;
                   scanned =
                     for_le minRow maxRow (\<lambda>row g.
                       for_le minCol maxCol (\<lambda>col g. rasterize_point circle threshold row col g) g) grid
               in Some (for_lt 0 sz (\<lambda>row g.
                          for_lt 0 sz (\<lambda>col g.
                            if row < minRow \<or> row > maxRow \<or> col < minCol \<or> col > maxCol
                            then set_highlighted g row col False
                            else g) g) scanned)))))"

definition rasterizeOptimized :: "Grid \<Rightarrow> Circle \<Rightarrow> Grid option" where
  "rasterizeOptimized = rasterizeOptimized_with static_cast_int"

definition cvttsd2si :: "real \<Rightarrow> int option" where
  "cvttsd2si d = (case static_cast_int d of Some t \<Rightarrow> Some t | None \<Rightarrow> Some INT_MIN)"

section \<open>Auxiliary notions for the rasterizer proofs\<close>

text \<open>The grid after a loop nest is the grid with one function applied to the points at a set
  of vector indices (\<open>upd_set\<close>); the two functions the rasterizer applies are \<open>mark\<close>
  (the flag assignment of the scan) and \<open>unmark\<close> (the clearing assignment). A grid is
  well formed when it has the shape the constructor gives it: \<open>size * size\<close> points, the
  point at index \<open>row * size + col\<close> at grid position \<open>(col, row)\<close>. The flags of a
  well-formed grid are arbitrary.\<close>

definition upd_set :: "(GridPoint \<Rightarrow> GridPoint) \<Rightarrow> nat set \<Rightarrow> Grid \<Rightarrow> Grid" where
  "upd_set F S g =
     g\<lparr>points := map (\<lambda>k. if k \<in> S then F (points g ! k) else points g ! k) [0..<length (points g)]\<rparr>"

definition mark :: "Circle \<Rightarrow> real \<Rightarrow> GridPoint \<Rightarrow> GridPoint" where
  "mark circle threshold point =
     point\<lparr>highlighted := (\<bar>distanceTo (center circle) (gridPosition point) - radius circle\<bar> \<le> threshold)\<rparr>"

definition unmark :: "GridPoint \<Rightarrow> GridPoint" where
  "unmark point = point\<lparr>highlighted := False\<rparr>"

definition grid_wf :: "Grid \<Rightarrow> bool" where
  "grid_wf g \<longleftrightarrow>
     0 \<le> grid_size g \<and> length (points g) = nat (grid_size g * grid_size g) \<and>
     (\<forall>k < length (points g).
        gridPosition (points g ! k) =
          \<lparr>x = real_of_int (int k mod grid_size g), y = real_of_int (int k div grid_size g)\<rparr>)"

definition cells :: "int \<Rightarrow> int set \<Rightarrow> int set \<Rightarrow> nat set" where
  "cells sz R C = (\<Union>row\<in>R. \<Union>col\<in>C. {nat (row * sz + col)})"

text \<open>The distances \<^verbatim>\<open>calculateBoundingCircles\<close> takes the minimum and maximum of: from the
  center to the grid position of every highlighted point, in the order of the vector.\<close>

definition highlighted_distances :: "Grid \<Rightarrow> Point2D \<Rightarrow> real list" where
  "highlighted_distances g c = map (\<lambda>point. distanceTo c (gridPosition point)) (filter highlighted (points g))"

section \<open>Concrete inputs\<close>

text \<open>The grid that \<^verbatim>\<open>Grid(2, 800, 800, 50)\<close> constructs (lemma \<open>Grid_init_example\<close>).\<close>

definition example_grid :: Grid where
  "example_grid =
     \<lparr>points =
        [\<lparr>gridPosition = \<lparr>x = 0, y = 0\<rparr>, canvasPosition = \<lparr>x = 50, y = 50\<rparr>, highlighted = False\<rparr>,
         \<lparr>gridPosition = \<lparr>x = 1, y = 0\<rparr>, canvasPosition = \<lparr>x = 750, y = 50\<rparr>, highlighted = False\<rparr>,
         \<lparr>gridPosition = \<lparr>x = 0, y = 1\<rparr>, canvasPosition = \<lparr>x = 50, y = 750\<rparr>, highlighted = False\<rparr>,
         \<lparr>gridPosition = \<lparr>x = 1, y = 1\<rparr>, canvasPosition = \<lparr>x = 750, y = 750\<rparr>, highlighted = False\<rparr>],
      grid_size = 2,
      transform = \<lparr>gridSpacing = 700, gridOrigin = \<lparr>x = 50, y = 50\<rparr>, gridSize = 2\<rparr>\<rparr>"

definition huge_circle :: Circle where
  "huge_circle = \<lparr>center = \<lparr>x = 0, y = - 10000000000\<rparr>, radius = 10000000000\<rparr>"



definition invalid_circle :: Circle where
  "invalid_circle = \<lparr>center = \<lparr>x = 1, y = 1\<rparr>, radius = - 1\<rparr>"

definition lit_grid :: Grid where
  "lit_grid = example_grid\<lparr>points := map (\<lambda>point. point\<lparr>highlighted := True\<rparr>) (points example_grid)\<rparr>"

text \<open>A center far from the grid, and the grid with the one point \<open>(0, 0)\<close> highlighted.\<close>

definition far_center :: Point2D where
  "far_center = \<lparr>x = 2 ^ 600, y = 0\<rparr>"

definition one_lit_grid :: Grid where
  "one_lit_grid = example_grid\<lparr>points := (points example_grid)[0 := (points example_grid ! 0)\<lparr>highlighted := True\<rparr>]\<rparr>"

section \<open>Problem2/Geometry.h\<close>

text \<open>A \<^verbatim>\<open>for\<close> loop whose body can \<^verbatim>\<open>break\<close>: the body returns the new state and whether
  it left the loop.\<close>

function for_lt_break :: "int \<Rightarrow> int \<Rightarrow> (int \<Rightarrow> 's \<Rightarrow> 's \<times> bool) \<Rightarrow> 's \<Rightarrow> 's" where
  "for_lt_break i n body s =
     (if i < n then
        (case body i s of
           (s', True) \<Rightarrow> s'
         | (s', False) \<Rightarrow> for_lt_break (i + 1) n body s')
      else s)"
  by pat_completeness auto
termination
  by (relation "measure (\<lambda>(i, n, body, s). nat (n - i))") auto

declare for_lt_break.simps [simp del]

text \<open>The values \<^verbatim>\<open>FitCircle\<close> computes before the Newton loop, under the names of the
  source: the centroid \<open>(cx, cy)\<close>, the moments of the translated points, and the
  coefficients of the characteristic polynomial.\<close>

record CircleFit =
  cx :: real
  cy :: real
  Mxx :: real
  Myy :: real
  Mxy :: real
  Mxz :: real
  Myz :: real
  Mzz :: real
  Mz :: real
  Cov_xy :: real
  Var_z :: real
  A2 :: real
  A1 :: real
  A0 :: real
  A22 :: real

definition epsilon :: real where
  "epsilon = 1 / 10 ^ 12"

definition IterMax :: int where
  "IterMax = 20"

text \<open>One pass through the body of the Newton loop, on the loop variables
  \<open>(xnew, ynew)\<close>; the flag says whether the pass ended in a \<^verbatim>\<open>break\<close>.\<close>

definition newton_body :: "CircleFit \<Rightarrow> int \<Rightarrow> dbl \<times> dbl \<Rightarrow> (dbl \<times> dbl) \<times> bool" where
  "newton_body m iter = (\<lambda>(xnew, ynew).
     let yold = ynew;
         ynew = Fin (A0 m) + xnew * (Fin (A1 m) + xnew * (Fin (A2 m) + Fin 4 * xnew * xnew))
     in if \<bar>ynew\<bar> > \<bar>yold\<bar> then ((Fin 0, ynew), True)
        else
          let Dy = Fin (A1 m) + xnew * (Fin (A22 m) + Fin 16 * xnew * xnew);
              xold = xnew;
              xnew = xold - ynew / Dy
          in if \<bar>(xnew - xold) / xnew\<bar> < Fin epsilon then ((xnew, ynew), True)
             else
               let xnew = (if iter \<ge> IterMax - 1 then Fin 0 else xnew)
               in if xnew < Fin 0 then ((Fin 0, ynew), True)
                  else ((xnew, ynew), False))"

text \<open>The quantities of one pass, for stating its rules: the value \<open>f(x)\<close> of the
  polynomial, its derivative \<open>Dy\<close>, the Newton update of \<open>x\<close>, the convergence test, and
  the values the loop variable \<^verbatim>\<open>xnew\<close> holds at the head of a pass (a finite number that
  is not negative, \<open>+\<infinity>\<close> or NaN).\<close>

definition newton_f :: "CircleFit \<Rightarrow> dbl \<Rightarrow> dbl" where
  "newton_f m xnew = Fin (A0 m) + xnew * (Fin (A1 m) + xnew * (Fin (A2 m) + Fin 4 * xnew * xnew))"

definition newton_Dy :: "CircleFit \<Rightarrow> dbl \<Rightarrow> dbl" where
  "newton_Dy m xnew = Fin (A1 m) + xnew * (Fin (A22 m) + Fin 16 * xnew * xnew)"

definition newton_next :: "CircleFit \<Rightarrow> dbl \<Rightarrow> dbl" where
  "newton_next m xold = xold - newton_f m xold / newton_Dy m xold"

definition converged :: "dbl \<Rightarrow> dbl \<Rightarrow> bool" where
  "converged xold xnew = (\<bar>(xnew - xold) / xnew\<bar> < Fin epsilon)"

fun newton_inv :: "dbl \<Rightarrow> bool" where
  "newton_inv (Fin r) = (0 \<le> r)"
| "newton_inv PInf = True"
| "newton_inv NInf = False"
| "newton_inv NaN = True"

fun finite_nonneg :: "dbl \<Rightarrow> bool" where
  "finite_nonneg (Fin r) = (0 \<le> r)"
| "finite_nonneg PInf = False"
| "finite_nonneg NInf = False"
| "finite_nonneg NaN = False"

text \<open>The loop, from \<^verbatim>\<open>xnew = 0\<close> and \<^verbatim>\<open>ynew = 1e+20\<close>; the result is \<^verbatim>\<open>xnew\<close> after it.\<close>

definition newton :: "CircleFit \<Rightarrow> dbl" where
  "newton m = fst (for_lt_break 0 IterMax (newton_body m) (Fin 0, Fin (10 ^ 20)))"

text \<open>The values the loop variable holds when the constant coefficient \<open>A0\<close> is zero.\<close>

fun zero_or_nan :: "dbl \<Rightarrow> bool" where
  "zero_or_nan (Fin r) = (r = 0)"
| "zero_or_nan NaN = True"
| "zero_or_nan PInf = False"
| "zero_or_nan NInf = False"

text \<open>Concrete input: the coefficients \<open>A0 = a0\<close>, \<open>A1 = a1\<close>, \<open>A2 = A22 = 0\<close> of a
  characteristic polynomial.\<close>

definition coeffs :: "real \<Rightarrow> real \<Rightarrow> CircleFit" where
  "coeffs a0 a1 =
     \<lparr>cx = 0, cy = 0, Mxx = 0, Myy = 0, Mxy = 0, Mxz = 0, Myz = 0, Mzz = 0, Mz = 0,
      Cov_xy = 0, Var_z = 0, A2 = 0, A1 = a1, A0 = a0, A22 = 0\<rparr>"

section \<open>extracredit/Geometry.h\<close>

text \<open>\<^verbatim>\<open>struct EllipseShape { Point center; double a; double b; double angle; bool valid; }\<close>.
  The fields \<^verbatim>\<open>center\<close>, \<^verbatim>\<open>a\<close> and \<^verbatim>\<open>b\<close> are \<open>ellipse_center\<close>, \<open>a_axis\<close> and \<open>b_axis\<close>
  here. The default constructor gives the invalid shape, the other constructor a valid one.\<close>

record EllipseShape =
  ellipse_center :: Point
  a_axis :: real
  b_axis :: real
  angle :: real
  valid :: bool

definition EllipseShape_default :: EllipseShape where
  "EllipseShape_default =
     \<lparr>ellipse_center = \<lparr>x = 0, y = 0\<rparr>, a_axis = 0, b_axis = 0, angle = 0, valid = False\<rparr>"

definition EllipseShape_init :: "Point \<Rightarrow> real \<Rightarrow> real \<Rightarrow> real \<Rightarrow> EllipseShape" where
  "EllipseShape_init c a b ang =
     \<lparr>ellipse_center = c, a_axis = a, b_axis = b, angle = ang, valid = True\<rparr>"

text \<open>\<^verbatim>\<open>std::atan2(y, x)\<close> of the C library, on finite arguments: the angle of the point
  \<open>(x, y)\<close> in \<open>(-\<pi>, \<pi>]\<close>, and \<open>0\<close> at the origin.\<close>

definition std_atan2 :: "real \<Rightarrow> real \<Rightarrow> real" where
  "std_atan2 v u =
     (if 0 < u then arctan (v / u)
      else if u < 0 \<and> 0 \<le> v then arctan (v / u) + pi
      else if u < 0 \<and> v < 0 then arctan (v / u) - pi
      else if 0 < v then pi / 2
      else if v < 0 then - (pi / 2)
      else 0)"

text \<open>\<^verbatim>\<open>std::isnan\<close> on a finite value.\<close>

definition std_isnan :: "real \<Rightarrow> bool" where
  "std_isnan d = False"

text \<open>In the definitions below \<open>rnd\<close> is the rounding of the arithmetic: every
  operation of the source is the rounding of its exact result.

  The mean of the points: \<^verbatim>\<open>sum_x / n\<close> and \<^verbatim>\<open>sum_y / n\<close>, with \<^verbatim>\<open>int n = points.size()\<close>.
  The source computes it twice, as \<^verbatim>\<open>(mean_x, mean_y)\<close> and as \<^verbatim>\<open>(mx, my)\<close>, by the same
  operations.\<close>

definition FitEllipse_mean :: "(real \<Rightarrow> real) \<Rightarrow> Point list \<Rightarrow> real \<times> real" where
  "FitEllipse_mean rnd pts =
     (let n = int (length pts);
          (sum_x, sum_y) =
            fold (\<lambda>p (sum_x, sum_y). (rnd (sum_x + x p), rnd (sum_y + y p))) pts (0, 0)
      in (rnd (sum_x / real_of_int n), rnd (sum_y / real_of_int n)))"

text \<open>The sums \<^verbatim>\<open>var_x\<close>, \<^verbatim>\<open>var_y\<close>, \<^verbatim>\<open>covar\<close> of the collinearity check (not divided by
  \<open>n\<close>) and their determinant \<^verbatim>\<open>det\<close>.\<close>

definition FitEllipse_var :: "(real \<Rightarrow> real) \<Rightarrow> Point list \<Rightarrow> real \<times> real \<times> real" where
  "FitEllipse_var rnd pts =
     (let (mean_x, mean_y) = FitEllipse_mean rnd pts
      in fold (\<lambda>p (var_x, var_y, covar).
                 let dx = rnd (x p - mean_x);
                     dy = rnd (y p - mean_y)
                 in (rnd (var_x + rnd (dx * dx)), rnd (var_y + rnd (dy * dy)),
                     rnd (covar + rnd (dx * dy))))
              pts (0, 0, 0))"

definition FitEllipse_det :: "(real \<Rightarrow> real) \<Rightarrow> Point list \<Rightarrow> real" where
  "FitEllipse_det rnd pts =
     (let (var_x, var_y, covar) = FitEllipse_var rnd pts
      in rnd (rnd (var_x * var_y) - rnd (covar * covar)))"

text \<open>The design matrix \<^verbatim>\<open>D2\<close>, one row \<open>(x, y, 1)\<close> per point, the scatter matrix
  \<^verbatim>\<open>S3[i][j] = \<Sum>\<^sub>k D2[k][i] * D2[k][j]\<close>, summed for \<open>k = 0, \<dots>, n - 1\<close> in this order, and its
  determinant \<^verbatim>\<open>det_S3\<close>. The matrices \<^verbatim>\<open>D1\<close>, \<^verbatim>\<open>S1\<close>, \<^verbatim>\<open>S2\<close>, \<^verbatim>\<open>S3inv\<close>, \<^verbatim>\<open>T\<close>, \<^verbatim>\<open>M\<close> and \<^verbatim>\<open>C\<close> of
  the source are written and never read again; the only division among them is by
  \<^verbatim>\<open>det_S3\<close>, after the test on it.\<close>

definition FitEllipse_D2 :: "Point list \<Rightarrow> real list list" where
  "FitEllipse_D2 pts = map (\<lambda>p. [x p, y p, 1]) pts"

definition FitEllipse_S3 :: "(real \<Rightarrow> real) \<Rightarrow> Point list \<Rightarrow> nat \<Rightarrow> nat \<Rightarrow> real" where
  "FitEllipse_S3 rnd pts i j =
     (let D2 = FitEllipse_D2 pts
      in fold (\<lambda>k s. rnd (s + rnd (D2 ! k ! i * D2 ! k ! j))) [0..<length pts] 0)"

definition FitEllipse_det_S3 :: "(real \<Rightarrow> real) \<Rightarrow> Point list \<Rightarrow> real" where
  "FitEllipse_det_S3 rnd pts =
     (let S3 = FitEllipse_S3 rnd pts
      in rnd (rnd (rnd (S3 0 0 * rnd (rnd (S3 1 1 * S3 2 2) - rnd (S3 1 2 * S3 2 1)))
                   - rnd (S3 0 1 * rnd (rnd (S3 1 0 * S3 2 2) - rnd (S3 1 2 * S3 2 0))))
              + rnd (S3 0 2 * rnd (rnd (S3 1 0 * S3 2 1) - rnd (S3 1 1 * S3 2 0)))))"

text \<open>The second central moments \<^verbatim>\<open>mxx\<close>, \<^verbatim>\<open>myy\<close>, \<^verbatim>\<open>mxy\<close> (divided by \<open>n\<close>), and from them
  the angle and the two axes as they are computed, before they are ordered:
  \<open>(a_axis, b_axis, theta)\<close>. The library functions \<^verbatim>\<open>std::atan2\<close>, \<^verbatim>\<open>std::cos\<close>, \<^verbatim>\<open>std::sin\<close>
  and \<^verbatim>\<open>std::sqrt\<close> return the rounding of the exact value.\<close>

definition FitEllipse_covariance :: "(real \<Rightarrow> real) \<Rightarrow> Point list \<Rightarrow> real \<times> real \<times> real" where
  "FitEllipse_covariance rnd pts =
     (let n = int (length pts);
          (mx, my) = FitEllipse_mean rnd pts;
          (mxx, myy, mxy) =
            fold (\<lambda>p (mxx, myy, mxy).
                    let dx = rnd (x p - mx);
                        dy = rnd (y p - my)
                    in (rnd (mxx + rnd (dx * dx)), rnd (myy + rnd (dy * dy)),
                        rnd (mxy + rnd (dx * dy))))
                 pts (0, 0, 0)
      in (rnd (mxx / real_of_int n), rnd (myy / real_of_int n), rnd (mxy / real_of_int n)))"

definition FitEllipse_axes :: "(real \<Rightarrow> real) \<Rightarrow> Point list \<Rightarrow> real \<times> real \<times> real" where
  "FitEllipse_axes rnd pts =
     (let (mxx, myy, mxy) = FitEllipse_covariance rnd pts;
          theta = rnd (0.5 * rnd (std_atan2 (rnd (2 * mxy)) (rnd (mxx - myy))));
          cos_t = rnd (cos theta);
          sin_t = rnd (sin theta);
          var1 = rnd (rnd (rnd (rnd (mxx * cos_t) * cos_t) + rnd (rnd (myy * sin_t) * sin_t))
                      + rnd (rnd (rnd (2 * mxy) * cos_t) * sin_t));
          var2 = rnd (rnd (rnd (rnd (mxx * sin_t) * sin_t) + rnd (rnd (myy * cos_t) * cos_t))
                      - rnd (rnd (rnd (2 * mxy) * cos_t) * sin_t));
          a_axis = rnd (2 * rnd (sqrt \<bar>var1\<bar>));
          b_axis = rnd (2 * rnd (sqrt \<bar>var2\<bar>))
      in (a_axis, b_axis, theta))"

text \<open>The last two steps of \<^verbatim>\<open>FitEllipse\<close>, on the values \<open>(a_axis, b_axis, theta)\<close> computed
  so far, whatever they are. \<open>FitEllipse_order\<close> is the statement
  \<^verbatim>\<open>if (b_axis > a_axis) { std::swap(a_axis, b_axis); theta += 3.14159265358979323846 / 2.0; }\<close>
  and \<open>FitEllipse_validate\<close> the final check and the construction of the result around
  the center \<open>(mx, my)\<close>.\<close>

definition FitEllipse_order :: "(real \<Rightarrow> real) \<Rightarrow> real \<times> real \<times> real \<Rightarrow> real \<times> real \<times> real" where
  "FitEllipse_order rnd = (\<lambda>(a_axis, b_axis, theta).
     if b_axis > a_axis
     then (b_axis, a_axis, rnd (theta + rnd (rnd 3.14159265358979323846 / 2.0)))
     else (a_axis, b_axis, theta))"

definition FitEllipse_validate :: "Point \<Rightarrow> real \<times> real \<times> real \<Rightarrow> EllipseShape" where
  "FitEllipse_validate c = (\<lambda>(a_axis, b_axis, theta).
     if std_isnan a_axis \<or> std_isnan b_axis \<or> std_isnan theta \<or>
        a_axis \<le> 0 \<or> b_axis \<le> 0 \<or> a_axis > 10000 \<or> b_axis > 10000
     then EllipseShape_default
     else EllipseShape_init c a_axis b_axis theta)"

text \<open>\<^verbatim>\<open>FitEllipse\<close>. The bounds \<^verbatim>\<open>1e-6\<close> and \<^verbatim>\<open>1e-10\<close> of the two guards are the doubles that
  these literals denote.\<close>

definition FitEllipse :: "(real \<Rightarrow> real) \<Rightarrow> Point list \<Rightarrow> EllipseShape" where
  "FitEllipse rnd pts =
     (if length pts < 5 then EllipseShape_default
      else if \<bar>FitEllipse_det rnd pts\<bar> < rnd (1 / 10 ^ 6) then EllipseShape_default
      else if \<bar>FitEllipse_det_S3 rnd pts\<bar> < rnd (1 / 10 ^ 10) then EllipseShape_default
      else
        let (mx, my) = FitEllipse_mean rnd pts
        in FitEllipse_validate \<lparr>x = mx, y = my\<rparr> (FitEllipse_order rnd (FitEllipse_axes rnd pts)))"

text \<open>Auxiliary notions for the statements about exact arithmetic: the points translated
  by their exact mean, and the points of a list lying on the line \<open>a x + b y = c\<close>.\<close>

definition translate_pts :: "Point list \<Rightarrow> Point list" where
  "translate_pts pts =
     map (\<lambda>p. \<lparr>x = x p - sum_list (map x pts) / real (length pts),
                y = y p - sum_list (map y pts) / real (length pts)\<rparr>) pts"

definition on_line :: "real \<Rightarrow> real \<Rightarrow> real \<Rightarrow> Point list \<Rightarrow> bool" where
  "on_line a b c pts \<longleftrightarrow> (a \<noteq> 0 \<or> b \<noteq> 0) \<and> list_all (\<lambda>p. a * x p + b * y p = c) pts"

text \<open>Concrete inputs: five points spread along both axes; five points on the diagonal;
  six points on the line \<open>x = 2 y - 20\<close>. The points of the last two lists are the centers
  \<open>(40 j + 20, 40 i + 20)\<close> of cells \<open>(i, j)\<close> of a grid of 40 pixels per cell.\<close>

definition cross_pts :: "Point list" where
  "cross_pts = [\<lparr>x = 2, y = 0\<rparr>, \<lparr>x = - 2, y = 0\<rparr>, \<lparr>x = 0, y = 1\<rparr>, \<lparr>x = 0, y = - 1\<rparr>, \<lparr>x = 0, y = 0\<rparr>]"

definition diagonal_pts :: "Point list" where
  "diagonal_pts =
     [\<lparr>x = 20, y = 20\<rparr>, \<lparr>x = 60, y = 60\<rparr>, \<lparr>x = 100, y = 100\<rparr>, \<lparr>x = 140, y = 140\<rparr>,
      \<lparr>x = 180, y = 180\<rparr>]"

definition sloped_pts :: "Point list" where
  "sloped_pts =
     [\<lparr>x = 20, y = 20\<rparr>, \<lparr>x = 100, y = 60\<rparr>, \<lparr>x = 180, y = 100\<rparr>, \<lparr>x = 260, y = 140\<rparr>,
      \<lparr>x = 340, y = 180\<rparr>, \<lparr>x = 580, y = 300\<rparr>]"

section \<open>Properties of the coordinate transform\<close>

lemma Point2D_eq_iff: "p = q \<longleftrightarrow> x p = x q \<and> y p = y q"
  for p q :: Point2D
  by (cases p, cases q) simp

text \<open>The invariant of the specification (\<open>gridSize \<ge> 2\<close> and \<open>padding < min(width, height) / 2\<close>)
  gives a transform with positive spacing.\<close>

lemma CoordinateTransform_init_spacing_pos:
  assumes "2 \<le> gridSz" "2 * padding < min canvasWidth canvasHeight"
  shows "\<exists>t. CoordinateTransform_init gridSz canvasWidth canvasHeight padding = Some t \<and> 0 < gridSpacing t"
proof -
  have "0 < real_of_int (min (canvasWidth - 2 * padding) (canvasHeight - 2 * padding))"
    using assms(2) by simp
  moreover have "0 < real_of_int (gridSz - 1)"
    using assms(1) by simp
  ultimately have "0 < real_of_int (min (canvasWidth - 2 * padding) (canvasHeight - 2 * padding))
                       / real_of_int (gridSz - 1)"
    by (rule divide_pos_pos)
  then show ?thesis
    using assms(1) by (simp add: CoordinateTransform_init_def Let_def)
qed

text \<open>C9: the two conversions of a transform are inverse to each other (in exact
  arithmetic, for a transform whose spacing is not zero), and the transform of the
  20 by 20 grid on the 800 by 800 canvas with padding 50 has spacing \<open>700 / 19\<close>,
  about 36.84, and sends the grid index \<open>(0, 0)\<close> to the canvas and back to \<open>(0, 0)\<close>.\<close>

theorem transform_round_trip:
  "(gridSpacing t \<noteq> 0 \<longrightarrow>
      gridToCanvas t (canvasToGrid t p) = p \<and> canvasToGrid t (gridToCanvas t p) = p)
   \<and> (\<exists>t0. CoordinateTransform_init 20 800 800 50 = Some t0
           \<and> gridSpacing t0 = 700 / 19
           \<and> \<bar>gridSpacing t0 - 36.84\<bar> < 0.005
           \<and> canvasToGrid t0 (gridToCanvas t0 \<lparr>x = 0, y = 0\<rparr>) = \<lparr>x = 0, y = 0\<rparr>)"
proof -
  have "gridToCanvas t (canvasToGrid t p) = p \<and> canvasToGrid t (gridToCanvas t p) = p"
    if "gridSpacing t \<noteq> 0"
    using that by (simp add: gridToCanvas_def canvasToGrid_def Point2D_eq_iff)
  moreover have "\<exists>t0. CoordinateTransform_init 20 800 800 50 = Some t0
           \<and> gridSpacing t0 = 700 / 19
           \<and> \<bar>gridSpacing t0 - 36.84\<bar> < 0.005
           \<and> canvasToGrid t0 (gridToCanvas t0 \<lparr>x = 0, y = 0\<rparr>) = \<lparr>x = 0, y = 0\<rparr>"
    by (simp add: CoordinateTransform_init_def canvasToGrid_def gridToCanvas_def)
  ultimately show ?thesis by blast
qed

theorem transform_round_trip_witness:
  "gridSpacing (transform example_grid) \<noteq> 0
   \<and> gridToCanvas (transform example_grid) (canvasToGrid (transform example_grid) \<lparr>x = 400, y = 225\<rparr>)
       = \<lparr>x = 400, y = 225\<rparr>
   \<and> canvasToGrid (transform example_grid) (gridToCanvas (transform example_grid) \<lparr>x = 400, y = 225\<rparr>)
       = \<lparr>x = 400, y = 225\<rparr>"
  using transform_round_trip [of "transform example_grid" "\<lparr>x = 400, y = 225\<rparr>"]
  by (simp add: example_grid_def)

section \<open>The rasterizer\<close>

lemma upd_set_simps [simp]:
  "grid_size (upd_set F S g) = grid_size g"
  "transform (upd_set F S g) = transform g"
  "length (points (upd_set F S g)) = length (points g)"
  by (simp_all add: upd_set_def)

lemma upd_set_nth:
  "k < length (points g) \<Longrightarrow>
   points (upd_set F S g) ! k = (if k \<in> S then F (points g ! k) else points g ! k)"
  by (simp add: upd_set_def)

lemma Grid_eqI:
  "points g = points h \<Longrightarrow> grid_size g = grid_size h \<Longrightarrow> transform g = transform h \<Longrightarrow> g = h"
  for g h :: Grid
  by (cases g, cases h) simp

lemma upd_set_empty: "upd_set F {} g = g"
  by (rule Grid_eqI) (simp_all add: upd_set_def map_nth)

lemma upd_set_single:
  "g\<lparr>points := (points g)[i := F (points g ! i)]\<rparr> = upd_set F {i} g"
  by (rule Grid_eqI) (auto simp: upd_set_def intro!: nth_equalityI simp: nth_list_update)

lemma upd_set_upd_set:
  assumes "\<And>p. F (F p) = F p"
  shows "upd_set F S (upd_set F T g) = upd_set F (S \<union> T) g"
  by (rule Grid_eqI) (auto simp: upd_set_def assms)

lemma for_lt_upd_set:
  assumes idem: "\<And>p. F (F p) = F p"
    and body: "\<And>i g. body i g = upd_set F (J i (grid_size g)) g"
  shows "for_lt i n body g = upd_set F (\<Union>k\<in>{i..<n}. J k (grid_size g)) g"
  using body
proof (induction i n body g rule: for_lt.induct)
  case (1 i n b s)
  show ?case
  proof (cases "i < n")
    case True
    have split: "{i..<n} = insert i {i + 1..<n}"
      using True by auto
    have step: "b i s = upd_set F (J i (grid_size s)) s"
      by (rule "1.prems")
    have "for_lt i n b s = for_lt (i + 1) n b (b i s)"
      using True by (simp add: for_lt.simps [of i])
    also have "\<dots> = upd_set F (\<Union>k\<in>{i + 1..<n}. J k (grid_size (b i s))) (b i s)"
      using "1.IH" [OF True "1.prems"] .
    also have "\<dots> = upd_set F (\<Union>k\<in>{i + 1..<n}. J k (grid_size s)) (upd_set F (J i (grid_size s)) s)"
      by (simp only: step upd_set_simps)
    also have "\<dots> = upd_set F (\<Union>k\<in>{i..<n}. J k (grid_size s)) s"
      by (simp add: upd_set_upd_set [OF idem] split Un_commute)
    finally show ?thesis .
  next
    case False
    then show ?thesis
      by (simp add: for_lt.simps [of i] upd_set_empty)
  qed
qed

lemma for_le_upd_set:
  assumes idem: "\<And>p. F (F p) = F p"
    and body: "\<And>i g. body i g = upd_set F (J i (grid_size g)) g"
  shows "for_le i m body g = upd_set F (\<Union>k\<in>{i..m}. J k (grid_size g)) g"
  using body
proof (induction i m body g rule: for_le.induct)
  case (1 i m b s)
  show ?case
  proof (cases "i \<le> m")
    case True
    have split: "{i..m} = insert i {i + 1..m}"
      using True by auto
    have step: "b i s = upd_set F (J i (grid_size s)) s"
      by (rule "1.prems")
    have "for_le i m b s = for_le (i + 1) m b (b i s)"
      using True by (simp add: for_le.simps [of i])
    also have "\<dots> = upd_set F (\<Union>k\<in>{i + 1..m}. J k (grid_size (b i s))) (b i s)"
      using "1.IH" [OF True "1.prems"] .
    also have "\<dots> = upd_set F (\<Union>k\<in>{i + 1..m}. J k (grid_size s)) (upd_set F (J i (grid_size s)) s)"
      by (simp only: step upd_set_simps)
    also have "\<dots> = upd_set F (\<Union>k\<in>{i..m}. J k (grid_size s)) s"
      by (simp add: upd_set_upd_set [OF idem] split Un_commute)
    finally show ?thesis .
  next
    case False
    then show ?thesis
      by (simp add: for_le.simps [of i] upd_set_empty)
  qed
qed

lemma mark_idem: "mark c t (mark c t p) = mark c t p"
  by (simp add: mark_def)

lemma unmark_idem: "unmark (unmark p) = unmark p"
  by (simp add: unmark_def)

lemma rasterize_point_upd_set:
  "rasterize_point c t row col g = upd_set (mark c t) {point_index g row col} g"
  by (simp add: rasterize_point_def set_highlighted_def getPoint_def Let_def mark_def
      flip: upd_set_single)

lemma set_highlighted_False_upd_set:
  "set_highlighted g row col False = upd_set unmark {point_index g row col} g"
  by (simp add: set_highlighted_def getPoint_def unmark_def flip: upd_set_single)

lemma rasterize_upd_set:
  assumes "isValid c"
  shows "rasterize g c =
         upd_set (mark c RASTERIZATION_THRESHOLD) (cells (grid_size g) {0..<grid_size g} {0..<grid_size g}) g"
proof -
  let ?F = "mark c RASTERIZATION_THRESHOLD"
  have inner: "for_lt 0 sz (\<lambda>col g. rasterize_point c RASTERIZATION_THRESHOLD row col g) g =
        upd_set ?F (\<Union>col\<in>{0..<sz}. {nat (row * grid_size g + col)}) g" for row sz g
    by (rule for_lt_upd_set [where J = "\<lambda>col s. {nat (row * s + col)}"])
       (simp_all add: mark_idem rasterize_point_upd_set point_index_def)
  show ?thesis
    unfolding rasterize_def Let_def cells_def using assms
    by (simp add: for_lt_upd_set [where F = ?F
              and J = "\<lambda>row s. (\<Union>col\<in>{0..<grid_size g}. {nat (row * s + col)})"] mark_idem inner)
qed

lemma cell_div_mod:
  assumes "0 \<le> row" "0 \<le> col" "col < sz"
  shows "int (nat (row * sz + col)) div sz = row" "int (nat (row * sz + col)) mod sz = col"
proof -
  have "0 \<le> row * sz + col"
    using assms by (simp add: add_nonneg_nonneg mult_nonneg_nonneg)
  then have eq: "int (nat (row * sz + col)) = col + row * sz"
    by simp
  show "int (nat (row * sz + col)) div sz = row"
    using assms unfolding eq by simp
  show "int (nat (row * sz + col)) mod sz = col"
    using assms unfolding eq by simp
qed

lemma cells_iff:
  assumes "R \<subseteq> {0..<sz}" "C \<subseteq> {0..<sz}"
  shows "k \<in> cells sz R C \<longleftrightarrow> int k div sz \<in> R \<and> int k mod sz \<in> C"
proof
  assume "k \<in> cells sz R C"
  then obtain row col where rc: "row \<in> R" "col \<in> C" "k = nat (row * sz + col)"
    by (auto simp: cells_def)
  then have "0 \<le> row" "0 \<le> col" "col < sz"
    using assms by auto
  from cell_div_mod [OF this] rc show "int k div sz \<in> R \<and> int k mod sz \<in> C"
    by simp
next
  assume h: "int k div sz \<in> R \<and> int k mod sz \<in> C"
  have "k = nat (int k div sz * sz + int k mod sz)"
    by simp
  with h show "k \<in> cells sz R C"
    unfolding cells_def by blast
qed

lemma cells_if_iff:
  "k \<in> (\<Union>row\<in>{0..<sz}. \<Union>col\<in>{0..<sz}. if P row col then {nat (row * sz + col)} else {}) \<longleftrightarrow>
     int k div sz \<in> {0..<sz} \<and> int k mod sz \<in> {0..<sz} \<and> P (int k div sz) (int k mod sz)"
  (is "k \<in> ?S \<longleftrightarrow> ?R")
proof
  assume "k \<in> ?S"
  then obtain row col where rc: "row \<in> {0..<sz}" "col \<in> {0..<sz}" "P row col" "k = nat (row * sz + col)"
    by (auto split: if_splits)
  then have "0 \<le> row" "0 \<le> col" "col < sz"
    by auto
  from cell_div_mod [OF this] rc show ?R
    by simp
next
  assume h: ?R
  have "k = nat (int k div sz * sz + int k mod sz)"
    by simp
  with h show "k \<in> ?S"
    by (intro UN_I [where a = "int k div sz"] UN_I [where a = "int k mod sz"]) auto
qed

lemma index_in_grid:
  assumes "grid_wf g" "k < length (points g)"
  shows "int k div grid_size g \<in> {0..<grid_size g}" "int k mod grid_size g \<in> {0..<grid_size g}"
proof -
  let ?sz = "grid_size g"
  have len: "length (points g) = nat (?sz * ?sz)" and nonneg: "0 \<le> ?sz"
    using assms(1) by (simp_all add: grid_wf_def)
  have pos: "0 < ?sz"
    using assms(2) len nonneg by (cases "?sz = 0") auto
  have "int k < ?sz * ?sz"
    using assms(2) len by linarith
  have "int k div ?sz < ?sz"
  proof (rule ccontr)
    assume "\<not> int k div ?sz < ?sz"
    then have "?sz * ?sz \<le> int k div ?sz * ?sz"
      using pos by (intro mult_right_mono) auto
    moreover have "0 \<le> int k mod ?sz"
      using pos by simp
    moreover have "int k div ?sz * ?sz + int k mod ?sz = int k"
      by simp
    ultimately show False
      using \<open>int k < ?sz * ?sz\<close> by linarith
  qed
  then show "int k div ?sz \<in> {0..<?sz}"
    using pos by (simp add: pos_imp_zdiv_nonneg_iff)
  show "int k mod ?sz \<in> {0..<?sz}"
    using pos by simp
qed

lemma rasterize_nth:
  assumes "grid_wf g" "isValid c" "k < length (points g)"
  shows "points (rasterize g c) ! k = mark c RASTERIZATION_THRESHOLD (points g ! k)"
  using index_in_grid [OF assms(1,3)] assms(3)
  by (simp add: rasterize_upd_set [OF assms(2)] upd_set_nth cells_iff)

lemma rasterize_frame:
  "grid_size (rasterize g c) = grid_size g" "transform (rasterize g c) = transform g"
  "length (points (rasterize g c)) = length (points g)"
proof -
  show "grid_size (rasterize g c) = grid_size g"
    by (cases "isValid c") (simp_all add: rasterize_upd_set, simp add: rasterize_def)
  show "transform (rasterize g c) = transform g"
    by (cases "isValid c") (simp_all add: rasterize_upd_set, simp add: rasterize_def)
  show "length (points (rasterize g c)) = length (points g)"
    by (cases "isValid c") (simp_all add: rasterize_upd_set, simp add: rasterize_def)
qed

lemma static_cast_int_floor:
  "static_cast_int (std_floor d) = Some a \<Longrightarrow> a = \<lfloor>d\<rfloor>"
  by (auto simp: static_cast_int_def std_floor_def Let_def split: if_splits)

lemma static_cast_int_ceil:
  "static_cast_int (std_ceil d) = Some a \<Longrightarrow> a = \<lceil>d\<rceil>"
  by (auto simp: static_cast_int_def std_ceil_def Let_def split: if_splits)

lemma distanceTo_ge:
  "\<bar>x p - x q\<bar> \<le> distanceTo p q" "\<bar>y p - y q\<bar> \<le> distanceTo p q"
  by (simp_all add: distanceTo_def Let_def power2_eq_square [symmetric])

lemma outside_box_far:
  assumes pos: "gridPosition p = \<lparr>x = real_of_int col, y = real_of_int row\<rparr>"
    and range: "0 \<le> row" "row < sz" "0 \<le> col" "col < sz"
    and out: "row < max 0 \<lfloor>y (center c) - radius c - t\<rfloor> \<or> row > min (sz - 1) \<lceil>y (center c) + radius c + t\<rceil>
            \<or> col < max 0 \<lfloor>x (center c) - radius c - t\<rfloor> \<or> col > min (sz - 1) \<lceil>x (center c) + radius c + t\<rceil>"
  shows "\<not> \<bar>distanceTo (center c) (gridPosition p) - radius c\<bar> \<le> t"
proof -
  let ?d = "distanceTo (center c) (gridPosition p)"
  have dx: "\<bar>x (center c) - real_of_int col\<bar> \<le> ?d" and dy: "\<bar>y (center c) - real_of_int row\<bar> \<le> ?d"
    using distanceTo_ge [of "center c" "gridPosition p"] by (simp_all add: pos)
  from out consider
      (top) "row < \<lfloor>y (center c) - radius c - t\<rfloor>"
    | (bottom) "row > \<lceil>y (center c) + radius c + t\<rceil>"
    | (left) "col < \<lfloor>x (center c) - radius c - t\<rfloor>"
    | (right) "col > \<lceil>x (center c) + radius c + t\<rceil>"
    using range by (auto simp: max_def min_def split: if_splits)
  then have "radius c + t < ?d"
  proof cases
    case top
    then have "real_of_int row < y (center c) - radius c - t"
      by linarith
    with dy show ?thesis by linarith
  next
    case bottom
    then have "y (center c) + radius c + t < real_of_int row"
      by linarith
    with dy show ?thesis by linarith
  next
    case left
    then have "real_of_int col < x (center c) - radius c - t"
      by linarith
    with dx show ?thesis by linarith
  next
    case right
    then have "x (center c) + radius c + t < real_of_int col"
      by linarith
    with dx show ?thesis by linarith
  qed
  then show ?thesis by linarith
qed

lemma rasterizeOptimized_with_upd_set:
  fixes g :: Grid and c :: Circle
  assumes "isValid c"
  defines "sz \<equiv> grid_size g" and "t \<equiv> RASTERIZATION_THRESHOLD"
  assumes casts:
      "cast (std_floor (y (center c) - radius c - t)) = Some a"
      "cast (std_ceil (y (center c) + radius c + t)) = Some b"
      "cast (std_floor (x (center c) - radius c - t)) = Some c'"
      "cast (std_ceil (x (center c) + radius c + t)) = Some d"
  defines "minRow \<equiv> max 0 a" and "maxRow \<equiv> min (sz - 1) b"
    and "minCol \<equiv> max 0 c'" and "maxCol \<equiv> min (sz - 1) d"
  shows "rasterizeOptimized_with cast g c =
           Some (upd_set unmark
                  (\<Union>row\<in>{0..<sz}. \<Union>col\<in>{0..<sz}.
                     if row < minRow \<or> row > maxRow \<or> col < minCol \<or> col > maxCol
                     then {nat (row * sz + col)} else {})
                  (upd_set (mark c t) (cells sz {minRow..maxRow} {minCol..maxCol}) g))"
proof -
  have scan: "for_le c0 c1 (\<lambda>col g. rasterize_point c t row col g) g =
        upd_set (mark c t) (\<Union>col\<in>{c0..c1}. {nat (row * grid_size g + col)}) g" for row c0 c1 g
    by (rule for_le_upd_set [where J = "\<lambda>col s. {nat (row * s + col)}"])
       (simp_all add: mark_idem rasterize_point_upd_set point_index_def)
  have scans: "for_le r0 r1 (\<lambda>row g. for_le c0 c1 (\<lambda>col g. rasterize_point c t row col g) g) g =
        upd_set (mark c t) (cells (grid_size g) {r0..r1} {c0..c1}) g" for r0 r1 c0 c1 g
    unfolding cells_def
    by (rule for_le_upd_set [where J = "\<lambda>row s. (\<Union>col\<in>{c0..c1}. {nat (row * s + col)})"])
       (simp_all add: mark_idem scan)
  have clear: "for_lt 0 n (\<lambda>col g. if P row col then set_highlighted g row col False else g) g =
        upd_set unmark (\<Union>col\<in>{0..<n}. if P row col then {nat (row * grid_size g + col)} else {}) g"
    for row n g P
    by (rule for_lt_upd_set [where J = "\<lambda>col s. if P row col then {nat (row * s + col)} else {}"])
       (simp_all add: unmark_idem set_highlighted_False_upd_set point_index_def upd_set_empty)
  have clears: "for_lt 0 n (\<lambda>row g. for_lt 0 n (\<lambda>col g. if P row col then set_highlighted g row col False else g) g) g =
        upd_set unmark (\<Union>row\<in>{0..<n}. \<Union>col\<in>{0..<n}. if P row col then {nat (row * grid_size g + col)} else {}) g"
    for n g P
    by (rule for_lt_upd_set
          [where J = "\<lambda>row s. (\<Union>col\<in>{0..<n}. if P row col then {nat (row * s + col)} else {})"])
       (simp_all add: unmark_idem clear)
  have "rasterizeOptimized_with cast g c =
        Some (for_lt 0 sz (\<lambda>row g. for_lt 0 sz (\<lambda>col g.
                if row < minRow \<or> row > maxRow \<or> col < minCol \<or> col > maxCol
                then set_highlighted g row col False else g) g)
              (for_le minRow maxRow (\<lambda>row g.
                 for_le minCol maxCol (\<lambda>col g. rasterize_point c t row col g) g) g))"
    using assms(1) casts [unfolded t_def]
    by (simp add: rasterizeOptimized_with_def Let_def minRow_def maxRow_def minCol_def maxCol_def
        sz_def t_def)
  then show ?thesis
    by (simp add: scans clears sz_def)
qed

lemma rasterizeOptimized_upd_set:
  assumes "isValid c" "rasterizeOptimized g c = Some g'"
  defines "sz \<equiv> grid_size g" and "t \<equiv> RASTERIZATION_THRESHOLD"
  defines "minRow \<equiv> max 0 \<lfloor>y (center c) - radius c - t\<rfloor>"
    and "maxRow \<equiv> min (sz - 1) \<lceil>y (center c) + radius c + t\<rceil>"
    and "minCol \<equiv> max 0 \<lfloor>x (center c) - radius c - t\<rfloor>"
    and "maxCol \<equiv> min (sz - 1) \<lceil>x (center c) + radius c + t\<rceil>"
  shows "g' = upd_set unmark
                (\<Union>row\<in>{0..<sz}. \<Union>col\<in>{0..<sz}.
                   if row < minRow \<or> row > maxRow \<or> col < minCol \<or> col > maxCol
                   then {nat (row * sz + col)} else {})
                (upd_set (mark c t) (cells sz {minRow..maxRow} {minCol..maxCol}) g)"
proof -
  from assms(1,2) obtain a b c' d where casts:
      "static_cast_int (std_floor (y (center c) - radius c - t)) = Some a"
      "static_cast_int (std_ceil (y (center c) + radius c + t)) = Some b"
      "static_cast_int (std_floor (x (center c) - radius c - t)) = Some c'"
      "static_cast_int (std_ceil (x (center c) + radius c + t)) = Some d"
    by (auto simp: rasterizeOptimized_def rasterizeOptimized_with_def Let_def t_def
        split: option.splits)
  have vals: "a = \<lfloor>y (center c) - radius c - t\<rfloor>" "b = \<lceil>y (center c) + radius c + t\<rceil>"
      "c' = \<lfloor>x (center c) - radius c - t\<rfloor>" "d = \<lceil>x (center c) + radius c + t\<rceil>"
    using casts by (simp_all add: static_cast_int_floor static_cast_int_ceil)
  show ?thesis
    using rasterizeOptimized_with_upd_set [OF assms(1) casts [unfolded t_def]] assms(2)
    by (simp add: rasterizeOptimized_def vals sz_def t_def minRow_def maxRow_def minCol_def maxCol_def)
qed

lemma threshold_nonneg: "0 \<le> RASTERIZATION_THRESHOLD"
  by (simp add: RASTERIZATION_THRESHOLD_def)

lemma mark_unmark [simp]: "unmark (mark c t p) = unmark p"
  by (simp add: mark_def unmark_def)

lemma rasterizeOptimized_eq_rasterize:
  assumes wf: "grid_wf g" and valid: "isValid c" and some: "rasterizeOptimized g c = Some g'"
  shows "g' = rasterize g c"
proof (rule Grid_eqI)
  let ?sz = "grid_size g" and ?t = "RASTERIZATION_THRESHOLD"
  let ?minRow = "max 0 \<lfloor>y (center c) - radius c - ?t\<rfloor>"
  let ?maxRow = "min (?sz - 1) \<lceil>y (center c) + radius c + ?t\<rceil>"
  let ?minCol = "max 0 \<lfloor>x (center c) - radius c - ?t\<rfloor>"
  let ?maxCol = "min (?sz - 1) \<lceil>x (center c) + radius c + ?t\<rceil>"
  let ?out = "\<lambda>row col. row < ?minRow \<or> row > ?maxRow \<or> col < ?minCol \<or> col > ?maxCol"
  define OUT where "OUT = (\<Union>row\<in>{0..<?sz}. \<Union>col\<in>{0..<?sz}.
                  if ?out row col then {nat (row * ?sz + col)} else {})"
  define BOX where "BOX = cells ?sz {?minRow..?maxRow} {?minCol..?maxCol}"
  define scanned where "scanned = upd_set (mark c ?t) BOX g"
  have g': "g' = upd_set unmark OUT scanned"
    unfolding OUT_def BOX_def scanned_def by (rule rasterizeOptimized_upd_set [OF valid some])
  show "grid_size g' = grid_size (rasterize g c)" "transform g' = transform (rasterize g c)"
    by (simp_all add: g' scanned_def rasterize_frame)
  show "points g' = points (rasterize g c)"
  proof (rule nth_equalityI)
    show "length (points g') = length (points (rasterize g c))"
      by (simp add: g' scanned_def rasterize_frame)
  next
    fix k assume "k < length (points g')"
    then have k: "k < length (points g)"
      by (simp add: g' scanned_def)
    let ?row = "int k div ?sz" and ?col = "int k mod ?sz"
    let ?p = "points g ! k"
    have rc: "?row \<in> {0..<?sz}" "?col \<in> {0..<?sz}"
      using index_in_grid [OF wf k] .
    have rc': "0 \<le> ?row" "?row < ?sz" "0 \<le> ?col" "?col < ?sz"
      using rc by simp_all
    have pos: "gridPosition ?p = \<lparr>x = real_of_int ?col, y = real_of_int ?row\<rparr>"
      using wf k by (simp add: grid_wf_def)
    have box: "k \<in> BOX \<longleftrightarrow> \<not> ?out ?row ?col"
    proof -
      have sub: "{?minRow..?maxRow} \<subseteq> {0..<?sz}" "{?minCol..?maxCol} \<subseteq> {0..<?sz}"
        by auto
      have "(row \<in> {lo..hi} \<and> col \<in> {lo'..hi'}) \<longleftrightarrow> \<not> (row < lo \<or> row > hi \<or> col < lo' \<or> col > hi')"
        for row col lo hi lo' hi' :: int
        by auto
      then show ?thesis
        unfolding BOX_def cells_iff [OF sub] .
    qed
    have out: "k \<in> OUT \<longleftrightarrow> ?out ?row ?col"
      unfolding OUT_def cells_if_iff using rc by blast
    have k2: "k < length (points scanned)"
      using k by (simp add: scanned_def)
    have eq1: "points g' ! k = (if k \<in> OUT then unmark (points scanned ! k) else points scanned ! k)"
      unfolding g' by (rule upd_set_nth [OF k2])
    have eq2: "points scanned ! k = (if k \<in> BOX then mark c ?t ?p else ?p)"
      unfolding scanned_def by (rule upd_set_nth [OF k])
    have eq3: "points (rasterize g c) ! k = mark c ?t ?p"
      by (rule rasterize_nth [OF wf valid k])
    show "points g' ! k = points (rasterize g c) ! k"
    proof (cases "k \<in> OUT")
      case True
      then have "?out ?row ?col"
        using out by blast
      then have "\<not> \<bar>distanceTo (center c) (gridPosition ?p) - radius c\<bar> \<le> ?t"
        by (rule outside_box_far [OF pos rc'])
      then have "mark c ?t ?p = unmark ?p"
        by (simp add: mark_def unmark_def)
      moreover have "points g' ! k = unmark ?p"
        using True by (simp add: eq1 eq2)
      ultimately show ?thesis
        by (simp add: eq3)
    next
      case False
      then have "k \<in> BOX"
        using out box by blast
      with False show ?thesis
        by (simp add: eq1 eq2 eq3)
    qed
  qed
qed

lemma rasterizeOptimized_defined:
  assumes "isValid c"
  shows "rasterizeOptimized g c \<noteq> None \<longleftrightarrow>
         INT_MIN \<le> \<lfloor>y (center c) - radius c - RASTERIZATION_THRESHOLD\<rfloor> \<and>
         \<lceil>y (center c) + radius c + RASTERIZATION_THRESHOLD\<rceil> \<le> INT_MAX \<and>
         INT_MIN \<le> \<lfloor>x (center c) - radius c - RASTERIZATION_THRESHOLD\<rfloor> \<and>
         \<lceil>x (center c) + radius c + RASTERIZATION_THRESHOLD\<rceil> \<le> INT_MAX"
proof -
  have fl: "static_cast_int (std_floor d) = (if INT_MIN \<le> \<lfloor>d\<rfloor> \<and> \<lfloor>d\<rfloor> \<le> INT_MAX then Some \<lfloor>d\<rfloor> else None)" for d
    by (simp add: static_cast_int_def std_floor_def Let_def)
  have ce: "static_cast_int (std_ceil d) = (if INT_MIN \<le> \<lceil>d\<rceil> \<and> \<lceil>d\<rceil> \<le> INT_MAX then Some \<lceil>d\<rceil> else None)" for d
    by (simp add: static_cast_int_def std_ceil_def Let_def)
  have r: "0 < radius c" "0 \<le> RASTERIZATION_THRESHOLD"
    using assms by (simp_all add: isValid_def threshold_nonneg)
  have "\<lfloor>y (center c) - radius c - RASTERIZATION_THRESHOLD\<rfloor> \<le> \<lceil>y (center c) + radius c + RASTERIZATION_THRESHOLD\<rceil>"
       "\<lfloor>x (center c) - radius c - RASTERIZATION_THRESHOLD\<rfloor> \<le> \<lceil>x (center c) + radius c + RASTERIZATION_THRESHOLD\<rceil>"
    using r by linarith+
  then show ?thesis
    using assms
    by (auto simp: rasterizeOptimized_def rasterizeOptimized_with_def Let_def fl ce
        split: option.splits)
qed

lemma Grid_init_example: "Grid_init 2 800 800 50 = Some example_grid"
  by (simp add: Grid_init_def CoordinateTransform_init_def for_lt.simps gridToCanvas_def
      GridPoint_init_def example_grid_def)

lemma example_grid_wf: "grid_wf example_grid"
proof -
  have "gridPosition (points example_grid ! k) =
          \<lparr>x = real_of_int (int k mod 2), y = real_of_int (int k div 2)\<rparr>" if "k < 4" for k
  proof -
    from that consider "k = 0" | "k = 1" | "k = 2" | "k = 3"
      by linarith
    then show ?thesis
      by cases (simp_all add: example_grid_def)
  qed
  then show ?thesis
    by (simp add: grid_wf_def) (simp add: example_grid_def)
qed

lemma example_grid_length: "length (points example_grid) = 4"
  by (simp add: example_grid_def)

text \<open>Well-formed grids are the grids of the program: the constructor builds one, and the
  rasterizers keep the shape and the grid positions.\<close>

lemma for_lt_append:
  "for_lt c n (\<lambda>col ps. ps @ [f col]) ps = ps @ map f [c..n - 1]"
proof (induction "nat (n - c)" arbitrary: c ps)
  case 0
  then show ?case
    by (simp add: for_lt.simps [of c])
next
  case (Suc k)
  then have lt: "c < n"
    by linarith
  have "for_lt (c + 1) n (\<lambda>col ps. ps @ [f col]) (ps @ [f c]) = (ps @ [f c]) @ map f [c + 1..n - 1]"
    by (rule Suc.hyps(1)) (use Suc.hyps(2) in linarith)
  moreover have "[c..n - 1] = c # [c + 1..n - 1]"
    using lt by (simp add: upto_rec1)
  ultimately show ?case
    using lt by (simp add: for_lt.simps [of c])
qed

lemma for_lt_rows:
  "for_lt r n (\<lambda>row ps. ps @ h row) ps = ps @ concat (map h [r..n - 1])"
proof (induction "nat (n - r)" arbitrary: r ps)
  case 0
  then show ?case
    by (simp add: for_lt.simps [of r])
next
  case (Suc k)
  then have lt: "r < n"
    by linarith
  have "for_lt (r + 1) n (\<lambda>row ps. ps @ h row) (ps @ h r) = (ps @ h r) @ concat (map h [r + 1..n - 1])"
    by (rule Suc.hyps(1)) (use Suc.hyps(2) in linarith)
  moreover have "[r..n - 1] = r # [r + 1..n - 1]"
    using lt by (simp add: upto_rec1)
  ultimately show ?case
    using lt by (simp add: for_lt.simps [of r])
qed

lemma concat_nth_uniform:
  assumes "\<forall>xs \<in> set xss. length xs = m" "i < length xss" "j < m"
  shows "concat xss ! (i * m + j) = xss ! i ! j"
  using assms
proof (induction xss arbitrary: i)
  case Nil
  then show ?case by simp
next
  case (Cons xs xss)
  show ?case
  proof (cases i)
    case 0
    then show ?thesis
      using Cons.prems by (simp add: nth_append)
  next
    case (Suc i')
    have "concat xss ! (i' * m + j) = xss ! i' ! j"
      using Cons.prems Suc by (intro Cons.IH) auto
    moreover have "Suc i' * m + j = length xs + (i' * m + j)"
      using Cons.prems(1) by simp
    ultimately show ?thesis
      using Suc by (simp only: concat.simps nth_append_length_plus nth_Cons_Suc)
  qed
qed

lemma concat_length_uniform:
  "\<forall>xs \<in> set xss. length xs = m \<Longrightarrow> length (concat xss) = length xss * m"
  by (induction xss) simp_all

lemma Grid_init_points:
  assumes "Grid_init n w h p = Some g"
  shows "points g =
     concat (map (\<lambda>row. map (\<lambda>col. GridPoint_init \<lparr>x = real_of_int col, y = real_of_int row\<rparr>
                                   (gridToCanvas (transform g) \<lparr>x = real_of_int col, y = real_of_int row\<rparr>))
                              [0..n - 1]) [0..n - 1])"
    "grid_size g = n"
proof -
  obtain t where t: "CoordinateTransform_init n w h p = Some t"
    using assms by (auto simp: Grid_init_def split: option.splits)
  have g: "g = \<lparr>points = for_lt 0 n (\<lambda>row ps. for_lt 0 n (\<lambda>col ps.
                      let gridPos = \<lparr>x = real_of_int col, y = real_of_int row\<rparr>;
                          canvasPos = gridToCanvas t gridPos
                      in ps @ [GridPoint_init gridPos canvasPos]) ps) [],
                grid_size = n, transform = t\<rparr>"
    using assms by (simp add: Grid_init_def t)
  show "grid_size g = n"
    by (simp add: g)
  show "points g =
     concat (map (\<lambda>row. map (\<lambda>col. GridPoint_init \<lparr>x = real_of_int col, y = real_of_int row\<rparr>
                                   (gridToCanvas (transform g) \<lparr>x = real_of_int col, y = real_of_int row\<rparr>))
                              [0..n - 1]) [0..n - 1])"
    by (simp add: g Let_def for_lt_append for_lt_rows)
qed

lemma Grid_init_wf:
  assumes "Grid_init n w h p = Some g" "0 \<le> n"
  shows "grid_wf g"
proof -
  let ?mk = "\<lambda>row col. GridPoint_init \<lparr>x = real_of_int col, y = real_of_int row\<rparr>
                 (gridToCanvas (transform g) \<lparr>x = real_of_int col, y = real_of_int row\<rparr>)"
  let ?rows = "map (\<lambda>row. map (?mk row) [0..n - 1]) [0..n - 1]"
  note pts = Grid_init_points [OF assms(1)]
  have uni: "\<forall>xs \<in> set ?rows. length xs = nat n"
    using assms(2) by auto
  have rows: "length ?rows = nat n"
    using assms(2) by simp
  have len: "length (points g) = nat (n * n)"
    using assms(2) by (simp add: pts(1) concat_length_uniform [OF uni] nat_mult_distrib)
  have "gridPosition (points g ! k) = \<lparr>x = real_of_int (int k mod n), y = real_of_int (int k div n)\<rparr>"
    if "k < length (points g)" for k
  proof -
    have k: "k < nat n * nat n"
      using that len assms(2) by (simp add: nat_mult_distrib)
    then have pos: "0 < nat n"
      by (cases "nat n") auto
    let ?i = "k div nat n" and ?j = "k mod nat n"
    have i: "?i < nat n"
      using k pos by (simp add: less_mult_imp_div_less)
    have j: "?j < nat n"
      using pos by simp
    have "points g ! (?i * nat n + ?j) = ?rows ! ?i ! ?j"
      unfolding pts(1) by (rule concat_nth_uniform [OF uni]) (use i j rows in simp_all)
    then have "points g ! k = ?mk (int ?i) (int ?j)"
      using i j assms(2) by (simp)
    moreover have "int ?i = int k div n" "int ?j = int k mod n"
      using assms(2) by (simp_all add: zdiv_int zmod_int)
    ultimately show ?thesis
      by (simp add: GridPoint_init_def)
  qed
  then show ?thesis
    using assms(2) len by (simp add: grid_wf_def pts(2))
qed

lemma upd_set_wf:
  assumes "grid_wf g" "\<And>p. gridPosition (F p) = gridPosition p"
  shows "grid_wf (upd_set F S g)"
  using assms by (simp add: grid_wf_def upd_set_nth)

lemma rasterize_wf: "grid_wf g \<Longrightarrow> grid_wf (rasterize g c)"
  by (cases "isValid c") (simp_all add: rasterize_upd_set upd_set_wf mark_def, simp add: rasterize_def)

lemma rasterizeOptimized_wf:
  assumes "grid_wf g" "rasterizeOptimized g c = Some g'"
  shows "grid_wf g'"
proof (cases "isValid c")
  case True
  from rasterizeOptimized_eq_rasterize [OF assms(1) True assms(2)] show ?thesis
    by (simp add: rasterize_wf [OF assms(1)])
next
  case False
  then show ?thesis
    using assms by (simp add: rasterizeOptimized_def rasterizeOptimized_with_def)
qed


lemma cvttsd2si_huge_circle:
  "cvttsd2si (std_floor (y (center huge_circle) - radius huge_circle - RASTERIZATION_THRESHOLD)) = Some INT_MIN"
  "cvttsd2si (std_ceil (y (center huge_circle) + radius huge_circle + RASTERIZATION_THRESHOLD)) = Some 1"
  "cvttsd2si (std_floor (x (center huge_circle) - radius huge_circle - RASTERIZATION_THRESHOLD)) = Some INT_MIN"
  "cvttsd2si (std_ceil (x (center huge_circle) + radius huge_circle + RASTERIZATION_THRESHOLD)) = Some INT_MIN"
proof -
  have fl: "\<lfloor>- 20000000000 - (7071 / 10000 :: real)\<rfloor> = - 20000000001"
    "\<lfloor>- 10000000000 - (7071 / 10000 :: real)\<rfloor> = - 10000000001"
    by (simp_all add: floor_eq_iff)
  have ce: "\<lceil>(7071 / 10000 :: real)\<rceil> = 1" "\<lceil>10000000000 + (7071 / 10000 :: real)\<rceil> = 10000000001"
    by (simp_all add: ceiling_eq_iff)
  show "cvttsd2si (std_floor (y (center huge_circle) - radius huge_circle - RASTERIZATION_THRESHOLD)) = Some INT_MIN"
    by (simp add: cvttsd2si_def static_cast_int_def std_floor_def huge_circle_def
        RASTERIZATION_THRESHOLD_def fl INT_MIN_def INT_MAX_def)
  show "cvttsd2si (std_ceil (y (center huge_circle) + radius huge_circle + RASTERIZATION_THRESHOLD)) = Some 1"
    by (simp add: cvttsd2si_def static_cast_int_def std_ceil_def huge_circle_def
        RASTERIZATION_THRESHOLD_def ce INT_MIN_def INT_MAX_def)
  show "cvttsd2si (std_floor (x (center huge_circle) - radius huge_circle - RASTERIZATION_THRESHOLD)) = Some INT_MIN"
    by (simp add: cvttsd2si_def static_cast_int_def std_floor_def huge_circle_def
        RASTERIZATION_THRESHOLD_def fl INT_MIN_def INT_MAX_def)
  show "cvttsd2si (std_ceil (x (center huge_circle) + radius huge_circle + RASTERIZATION_THRESHOLD)) = Some INT_MIN"
    by (simp add: cvttsd2si_def static_cast_int_def std_ceil_def huge_circle_def
        RASTERIZATION_THRESHOLD_def ce INT_MIN_def INT_MAX_def)
qed

lemma rasterizeOptimized_cvttsd2si_huge_circle:
  "\<exists>g'. rasterizeOptimized_with cvttsd2si example_grid huge_circle = Some g'
        \<and> \<not> highlighted (points g' ! 0)"
proof -
  have valid: "isValid huge_circle"
    by (simp add: isValid_def huge_circle_def)
  define OUT where "OUT = (\<Union>row\<in>{0..<grid_size example_grid}. \<Union>col\<in>{0..<grid_size example_grid}.
      if row < max 0 INT_MIN \<or> row > min (grid_size example_grid - 1) 1
         \<or> col < max 0 INT_MIN \<or> col > min (grid_size example_grid - 1) INT_MIN
      then {nat (row * grid_size example_grid + col)} else {})"
  define scanned where "scanned = upd_set (mark huge_circle RASTERIZATION_THRESHOLD)
      (cells (grid_size example_grid) {max 0 INT_MIN..min (grid_size example_grid - 1) 1}
         {max 0 INT_MIN..min (grid_size example_grid - 1) INT_MIN}) example_grid"
  have res: "rasterizeOptimized_with cvttsd2si example_grid huge_circle = Some (upd_set unmark OUT scanned)"
    unfolding OUT_def scanned_def
    by (rule rasterizeOptimized_with_upd_set [OF valid cvttsd2si_huge_circle])
  have "0 \<in> OUT"
    unfolding OUT_def cells_if_iff by (simp add: example_grid_def INT_MIN_def)
  moreover have "0 < length (points scanned)"
    by (simp add: scanned_def example_grid_length)
  ultimately have "points (upd_set unmark OUT scanned) ! 0 = unmark (points scanned ! 0)"
    by (simp add: upd_set_nth)
  then have "\<not> highlighted (points (upd_set unmark OUT scanned) ! 0)"
    by (simp add: unmark_def)
  with res show ?thesis
    by blast
qed

text \<open>C1: on a well-formed grid the two rasterizers agree whenever the optimized one is
  defined (lemma \<open>rasterizeOptimized_eq_rasterize\<close>), and it is defined exactly when the
  four bounds of the padded bounding box are values of \<^verbatim>\<open>int\<close> (lemma
  \<open>rasterizeOptimized_defined\<close>). For the valid circle of center \<open>(0, -10\<^sup>1\<^sup>0)\<close> and radius
  \<open>10\<^sup>1\<^sup>0\<close>, which passes through the grid point \<open>(0, 0)\<close>, the bound
  \<open>\<lfloor>cy - r - T\<rfloor>\<close> is not an \<^verbatim>\<open>int\<close>: \<^verbatim>\<open>rasterizeOptimized\<close> has no defined result, while
  \<^verbatim>\<open>rasterize\<close> highlights the point. With the conversion of x86-64 the optimized
  rasterizer returns a grid on which that point is not highlighted.\<close>

theorem rasterizeOptimized_huge_circle:
  "rasterizeOptimized example_grid huge_circle = None
   \<and> highlighted (points (rasterize example_grid huge_circle) ! 0)
   \<and> (\<exists>g'. rasterizeOptimized_with cvttsd2si example_grid huge_circle = Some g'
          \<and> \<not> highlighted (points g' ! 0))"
proof -
  have valid: "isValid huge_circle"
    by (simp add: isValid_def huge_circle_def)
  have "\<lfloor>y (center huge_circle) - radius huge_circle - RASTERIZATION_THRESHOLD\<rfloor> < INT_MIN"
    by (simp add: floor_less_iff huge_circle_def RASTERIZATION_THRESHOLD_def INT_MIN_def)
  then have none: "rasterizeOptimized example_grid huge_circle = None"
    using rasterizeOptimized_defined [OF valid, of example_grid] by auto
  have "distanceTo (center huge_circle) (gridPosition (points example_grid ! 0)) = 10000000000"
    by (simp add: distanceTo_def huge_circle_def example_grid_def real_sqrt_unique)
  moreover have "radius huge_circle = 10000000000"
    by (simp add: huge_circle_def)
  moreover have "points (rasterize example_grid huge_circle) ! 0 =
      mark huge_circle RASTERIZATION_THRESHOLD (points example_grid ! 0)"
    by (rule rasterize_nth [OF example_grid_wf valid]) (simp add: example_grid_length)
  ultimately have "highlighted (points (rasterize example_grid huge_circle) ! 0)"
    by (simp add: mark_def RASTERIZATION_THRESHOLD_def)
  with none rasterizeOptimized_cvttsd2si_huge_circle show ?thesis by simp
qed





text \<open>C8: with a circle of radius at most zero both rasterizers return at once: the grid,
  its flags and positions included, is what it was.\<close>

theorem rasterize_invalid_noop:
  "radius c \<le> 0 \<Longrightarrow> rasterize g c = g \<and> rasterizeOptimized g c = Some g"
  by (simp add: rasterize_def rasterizeOptimized_def rasterizeOptimized_with_def isValid_def)

theorem rasterize_invalid_noop_witness:
  "radius invalid_circle \<le> 0
   \<and> rasterize lit_grid invalid_circle = lit_grid
   \<and> rasterizeOptimized lit_grid invalid_circle = Some lit_grid
   \<and> list_all highlighted (points lit_grid)"
proof -
  have neg: "radius invalid_circle \<le> 0"
    by (simp add: invalid_circle_def)
  have "list_all highlighted (points lit_grid)"
    by (simp add: lit_grid_def example_grid_def)
  with neg rasterize_invalid_noop [OF neg, of lit_grid] show ?thesis
    by simp
qed

section \<open>Bounding circles\<close>

lemma distanceTo_nonneg: "0 \<le> distanceTo p q"
  by (simp add: distanceTo_def Let_def)

lemma fold_min_Min: "ds \<noteq> [] \<Longrightarrow> fold (\<lambda>d m. min m d) ds (a::real) = min a (Min (set ds))"
proof (induction ds arbitrary: a)
  case Nil
  then show ?case by simp
next
  case (Cons d ds)
  show ?case
  proof (cases "ds = []")
    case True
    then show ?thesis by simp
  next
    case False
    then show ?thesis
      using Cons.IH [OF False, of "min a d"] by (simp add: min.assoc)
  qed
qed

lemma fold_max_Max: "ds \<noteq> [] \<Longrightarrow> fold (\<lambda>d m. max m d) ds (a::real) = max a (Max (set ds))"
proof (induction ds arbitrary: a)
  case Nil
  then show ?case by simp
next
  case (Cons d ds)
  show ?case
  proof (cases "ds = []")
    case True
    then show ?thesis by simp
  next
    case False
    then show ?thesis
      using Cons.IH [OF False, of "max a d"] by (simp add: max.assoc)
  qed
qed

lemma DBL_MAX_eq: "DBL_MAX = 2 ^ 1024 - 2 ^ 971"
  by (simp add: DBL_MAX_def)

lemma DBL_MAX_ge: "2 ^ 1023 \<le> DBL_MAX"
  by (simp add: DBL_MAX_def)

lemma DBL_MAX_ge_pow: "n \<le> 1023 \<Longrightarrow> 2 ^ n \<le> DBL_MAX"
proof -
  assume "n \<le> 1023"
  hence "(2::real) ^ n \<le> 2 ^ 1023"
    by (intro power_increasing) simp_all
  with DBL_MAX_ge show ?thesis
    by linarith
qed

text \<open>A value that a \<^verbatim>\<open>double\<close> can hold is not changed by \<open>overflow\<close>; so where the
  coordinate differences are at most \<open>2\<^sup>5\<^sup>0\<^sup>0\<close>, \<open>distanceTo_dbl\<close> is \<open>distanceTo\<close>.\<close>

lemma overflow_Fin: "\<bar>v\<bar> \<le> DBL_MAX \<Longrightarrow> overflow (Fin v) = Fin v"
  by (simp add: overflow_def DBL_MAX_eq)

lemma distanceTo_dbl_eq_bound:
  assumes "\<bar>x p - x q\<bar> \<le> B" "\<bar>y p - y q\<bar> \<le> B" "1 \<le> B" "2 * (B * B) \<le> DBL_MAX"
  shows "distanceTo_dbl p q = Fin (distanceTo p q)" "distanceTo p q \<le> DBL_MAX"
proof -
  define dx dy where "dx = x p - x q" and "dy = y p - y q"
  have b: "\<bar>dx\<bar> \<le> B" "\<bar>dy\<bar> \<le> B"
    using assms by (simp_all add: dx_def dy_def)
  have BB: "B \<le> B * B" "0 \<le> B * B"
    using assms(3) by simp_all
  have "\<bar>dx\<bar> * \<bar>dx\<bar> \<le> B * B"
    by (rule mult_mono) (use b assms(3) in simp_all)
  moreover have "\<bar>dy\<bar> * \<bar>dy\<bar> \<le> B * B"
    by (rule mult_mono) (use b assms(3) in simp_all)
  ultimately have sq: "dx * dx \<le> B * B" "dy * dy \<le> B * B"
    by simp_all
  have nn: "0 \<le> dx * dx" "0 \<le> dy * dy"
    by simp_all
  have o1: "overflow (Fin dx) = Fin dx" "overflow (Fin dy) = Fin dy"
    using b BB assms(4) by (simp_all add: overflow_Fin)
  have a2: "\<bar>dx * dx\<bar> \<le> DBL_MAX" "\<bar>dy * dy\<bar> \<le> DBL_MAX"
    using sq BB assms(4) nn by linarith+
  have o2: "overflow (Fin (dx * dx)) = Fin (dx * dx)" "overflow (Fin (dy * dy)) = Fin (dy * dy)"
    by (rule overflow_Fin [OF a2(1)], rule overflow_Fin [OF a2(2)])
  have "\<bar>dx * dx + dy * dy\<bar> \<le> DBL_MAX"
    using sq nn assms(4) by linarith
  hence o3: "overflow (Fin (dx * dx + dy * dy)) = Fin (dx * dx + dy * dy)"
    by (rule overflow_Fin)
  show "distanceTo_dbl p q = Fin (distanceTo p q)"
    using nn
    by (simp add: distanceTo_dbl_def distanceTo_def Let_def minus_dbl_def times_dbl_def plus_dbl_def
        o1 o2 o3 flip: dx_def dy_def)
  have "dx * dx + dy * dy \<le> (2 * B) * (2 * B)"
    using sq BB by linarith
  hence "sqrt (dx * dx + dy * dy) \<le> sqrt ((2 * B) * (2 * B))"
    by (rule real_sqrt_le_mono)
  also have "sqrt ((2 * B) * (2 * B)) = 2 * B"
    by (rule real_sqrt_unique) (use assms(3) in \<open>simp_all add: power2_eq_square\<close>)
  also have "2 * B \<le> DBL_MAX"
    using BB assms(4) by linarith
  finally show "distanceTo p q \<le> DBL_MAX"
    by (simp add: distanceTo_def Let_def flip: dx_def dy_def)
qed

lemma distanceTo_dbl_eq:
  assumes "\<bar>x p - x q\<bar> \<le> 2 ^ 500" "\<bar>y p - y q\<bar> \<le> 2 ^ 500"
  shows "distanceTo_dbl p q = Fin (distanceTo p q)" "distanceTo p q \<le> DBL_MAX"
proof -
  have 1: "(1::real) \<le> 2 ^ 500"
    by simp
  have "2 * ((2::real) ^ 500 * 2 ^ 500) = 2 ^ 1001"
    by simp
  hence 2: "2 * ((2::real) ^ 500 * 2 ^ 500) \<le> DBL_MAX"
    using DBL_MAX_ge_pow [of 1001] by simp
  show "distanceTo_dbl p q = Fin (distanceTo p q)" "distanceTo p q \<le> DBL_MAX"
    using distanceTo_dbl_eq_bound [OF assms 1 2] by blast+
qed

lemma std_min_Fin: "std_min (Fin a) (Fin b) = Fin (min a b)"
  by (simp add: std_min_def less_dbl_def min_def)

lemma std_max_Fin: "std_max (Fin a) (Fin b) = Fin (max a b)"
  by (simp add: std_max_def less_dbl_def max_def)

lemma bounding_fold:
  assumes "\<forall>point \<in> set ps. highlighted point \<longrightarrow>
             distanceTo_dbl c (gridPosition point) = Fin (distanceTo c (gridPosition point))"
  shows "fold (\<lambda>point (minDistance, maxDistance, hasHighlightedPoints).
            if highlighted point then
              let dist = distanceTo_dbl c (gridPosition point)
              in (std_min minDistance dist, std_max maxDistance dist, True)
            else (minDistance, maxDistance, hasHighlightedPoints))
        ps (Fin mn, Fin mx, h)
   = (Fin (fold (\<lambda>d m. min m d) (map (\<lambda>point. distanceTo c (gridPosition point)) (filter highlighted ps)) mn),
      Fin (fold (\<lambda>d m. max m d) (map (\<lambda>point. distanceTo c (gridPosition point)) (filter highlighted ps)) mx),
      h \<or> filter highlighted ps \<noteq> [])"
  using assms by (induction ps arbitrary: mn mx h) (simp_all add: Let_def std_min_Fin std_max_Fin)

text \<open>Where no coordinate of a highlighted point differs from the center by more than
  \<open>2\<^sup>5\<^sup>0\<^sup>0\<close>, \<^verbatim>\<open>calculateBoundingCircles\<close> returns the minimum and the maximum of the
  distances.\<close>

lemma calculateBoundingCircles_in_range:
  assumes "\<forall>point \<in> set (points g). highlighted point \<longrightarrow>
             \<bar>x c - x (gridPosition point)\<bar> \<le> 2 ^ 500 \<and> \<bar>y c - y (gridPosition point)\<bar> \<le> 2 ^ 500"
  shows "calculateBoundingCircles g c innerCircle outerCircle =
     (if highlighted_distances g c = [] then (False, innerCircle, outerCircle)
      else (True,
            \<lparr>center_dbl = c, radius_dbl = Fin (Min (set (highlighted_distances g c)))\<rparr>,
            \<lparr>center_dbl = c, radius_dbl = Fin (Max (set (highlighted_distances g c)))\<rparr>))"
proof -
  have eq: "\<forall>point \<in> set (points g). highlighted point \<longrightarrow>
             distanceTo_dbl c (gridPosition point) = Fin (distanceTo c (gridPosition point))"
    using assms distanceTo_dbl_eq(1) by blast
  note fold = bounding_fold [OF eq]
  show ?thesis
  proof (cases "highlighted_distances g c = []")
    case True
    then show ?thesis
      by (simp add: calculateBoundingCircles_def fold highlighted_distances_def)
  next
    case False
    have in_range: "0 \<le> d \<and> d \<le> DBL_MAX" if "d \<in> set (highlighted_distances g c)" for d
      using that assms distanceTo_dbl_eq(2) [of c] distanceTo_nonneg [of c]
      by (auto simp: highlighted_distances_def)
    obtain d where d: "d \<in> set (highlighted_distances g c)"
      using False by (cases "highlighted_distances g c") auto
    have "0 \<le> d"
      using in_range [OF d] by simp
    also have "d \<le> Max (set (highlighted_distances g c))"
      using d by simp
    finally have mx: "max 0 (Max (set (highlighted_distances g c))) = Max (set (highlighted_distances g c))"
      by simp
    have "Min (set (highlighted_distances g c)) \<le> d"
      using d by simp
    also have "d \<le> DBL_MAX"
      using in_range [OF d] by simp
    finally have mn: "min DBL_MAX (Min (set (highlighted_distances g c))) = Min (set (highlighted_distances g c))"
      by simp
    from False show ?thesis
      using fold_min_Min [OF False, of DBL_MAX] fold_max_Max [OF False, of 0] mn mx
      by (simp add: calculateBoundingCircles_def fold highlighted_distances_def)
  qed
qed

lemma one_lit_grid_highlighted:
  "filter highlighted (points one_lit_grid) = [points one_lit_grid ! 0]"
  "gridPosition (points one_lit_grid ! 0) = \<lparr>x = 0, y = 0\<rparr>"
  by (simp_all add: one_lit_grid_def example_grid_def)

lemma calculateBoundingCircles_in_range_example:
  "calculateBoundingCircles one_lit_grid \<lparr>x = 3, y = 4\<rparr> innerCircle outerCircle =
     (True, \<lparr>center_dbl = \<lparr>x = 3, y = 4\<rparr>, radius_dbl = Fin 5\<rparr>,
            \<lparr>center_dbl = \<lparr>x = 3, y = 4\<rparr>, radius_dbl = Fin 5\<rparr>)"
proof -
  have d: "distanceTo \<lparr>x = 3, y = 4\<rparr> \<lparr>x = 0, y = 0\<rparr> = 5"
    by (simp add: distanceTo_def real_sqrt_unique)
  have "(3::real) \<le> 2 ^ 500" "(4::real) \<le> 2 ^ 500"
    by simp_all
  hence "\<forall>point \<in> set (points one_lit_grid). highlighted point \<longrightarrow>
           \<bar>x \<lparr>x = 3, y = 4\<rparr> - x (gridPosition point)\<bar> \<le> 2 ^ 500
           \<and> \<bar>y \<lparr>x = 3, y = 4\<rparr> - y (gridPosition point)\<bar> \<le> 2 ^ 500"
    by (simp add: one_lit_grid_def example_grid_def)
  from calculateBoundingCircles_in_range [OF this] show ?thesis
    by (simp add: highlighted_distances_def one_lit_grid_highlighted d)
qed

text \<open>C3: the claim does not hold of the code where a squared coordinate difference
  overflows. With the center \<open>(2\<^sup>6\<^sup>0\<^sup>0, 0)\<close> and the one point \<open>(0, 0)\<close> highlighted, the distance
  is \<open>2\<^sup>6\<^sup>0\<^sup>0\<close>, which a \<^verbatim>\<open>double\<close> holds; \<^verbatim>\<open>distanceTo\<close> squares it and returns \<open>+\<infinity>\<close>, the
  running minimum keeps its initial value, and \<^verbatim>\<open>calculateBoundingCircles\<close> returns an inner
  circle of radius \<^verbatim>\<open>DBL_MAX\<close> and an outer circle of radius \<open>+\<infinity>\<close>: neither is the distance,
  and the two differ.\<close>

theorem calculateBoundingCircles_overflow:
  "map gridPosition (filter highlighted (points one_lit_grid)) = [\<lparr>x = 0, y = 0\<rparr>]
   \<and> distanceTo far_center \<lparr>x = 0, y = 0\<rparr> = 2 ^ 600
   \<and> 2 ^ 600 < DBL_MAX
   \<and> distanceTo_dbl far_center \<lparr>x = 0, y = 0\<rparr> = PInf
   \<and> calculateBoundingCircles one_lit_grid far_center innerCircle outerCircle =
        (True, \<lparr>center_dbl = far_center, radius_dbl = Fin DBL_MAX\<rparr>,
               \<lparr>center_dbl = far_center, radius_dbl = PInf\<rparr>)"
proof -
  have pts: "map gridPosition (filter highlighted (points one_lit_grid)) = [\<lparr>x = 0, y = 0\<rparr>]"
    by (simp add: one_lit_grid_def example_grid_def)
  have d: "distanceTo far_center \<lparr>x = 0, y = 0\<rparr> = 2 ^ 600"
    unfolding distanceTo_def far_center_def Let_def
    by (rule real_sqrt_unique) (simp_all add: power2_eq_square)
  have lt: "(2::real) ^ 600 < DBL_MAX"
    by (simp add: DBL_MAX_eq)
  have dx: "overflow (Fin (x far_center) - Fin (x \<lparr>x = 0, y = 0\<rparr>)) = Fin (2 ^ 600)"
    by (simp add: far_center_def minus_dbl_def overflow_def DBL_MAX_eq)
  have dy: "overflow (Fin (y far_center) - Fin (y \<lparr>x = 0, y = 0\<rparr>)) = Fin 0"
    by (simp add: far_center_def minus_dbl_def overflow_def DBL_MAX_eq)
  have sqx: "overflow (Fin (2 ^ 600) * Fin (2 ^ 600)) = PInf"
    by (simp add: times_dbl_def overflow_def)
  have sqy: "overflow (Fin 0 * Fin 0) = Fin 0"
    by (simp add: times_dbl_def overflow_def DBL_MAX_eq)
  have inf: "distanceTo_dbl far_center \<lparr>x = 0, y = 0\<rparr> = PInf"
    unfolding distanceTo_dbl_def Let_def dx dy sqx sqy
    by (simp add: plus_dbl_def overflow_def)
  have "calculateBoundingCircles one_lit_grid far_center innerCircle outerCircle =
        (True, \<lparr>center_dbl = far_center, radius_dbl = Fin DBL_MAX\<rparr>,
               \<lparr>center_dbl = far_center, radius_dbl = PInf\<rparr>)"
    by (simp add: calculateBoundingCircles_def one_lit_grid_def example_grid_def inf
        std_min_def std_max_def less_dbl_def)
  with pts d lt inf show ?thesis
    by simp
qed

section \<open>The circle fit\<close>

lemmas dbl_ops = plus_dbl_def minus_dbl_def times_dbl_def divide_dbl_def abs_dbl_def
  less_dbl_def uminus_dbl_def

lemma newton_body_eq:
  "newton_body m iter (xold, yold) =
     (if \<bar>newton_f m xold\<bar> > \<bar>yold\<bar> then ((Fin 0, newton_f m xold), True)
      else if converged xold (newton_next m xold) then ((newton_next m xold, newton_f m xold), True)
      else if iter \<ge> IterMax - 1 then ((Fin 0, newton_f m xold), False)
      else if newton_next m xold < Fin 0 then ((Fin 0, newton_f m xold), True)
      else ((newton_next m xold, newton_f m xold), False))"
  by (simp add: newton_body_def newton_f_def newton_Dy_def newton_next_def converged_def Let_def
      less_dbl_def)

lemma ratio_ge_1:
  fixes r r0 :: real
  assumes "r < 0" "0 \<le> r0"
  shows "1 \<le> \<bar>(r - r0) / r\<bar>"
proof -
  have "(r - r0) / r = 1 + r0 / (- r)"
    using assms by (simp add: field_simps)
  moreover have "0 \<le> r0 / (- r)"
    using assms by (intro divide_nonneg_pos) simp_all
  ultimately show ?thesis
    by linarith
qed

lemma converged_pos:
  assumes "converged xold xnew" "newton_inv xold"
  shows "\<exists>r. xnew = Fin r \<and> 0 < r"
proof (cases xnew)
  case (Fin r)
  show ?thesis
  proof (cases xold)
    case (Fin r0)
    have r0: "0 \<le> r0"
      using assms(2) Fin by simp
    have "0 < r"
    proof (rule ccontr)
      assume "\<not> 0 < r"
      then consider "r = 0" | "r < 0" by linarith
      then show False
      proof cases
        case 1
        then show ?thesis
          using assms(1) Fin \<open>xnew = Fin r\<close>
          by (simp add: converged_def dbl_ops split: if_splits)
      next
        case 2
        have "(Fin r - Fin r0) / Fin r = Fin ((r - r0) / r)"
          using 2 by (simp add: dbl_ops)
        then have "\<bar>(r - r0) / r\<bar> < epsilon"
          using assms(1) unfolding converged_def Fin \<open>xnew = Fin r\<close>
          by (simp only: abs_dbl_def less_dbl_def dbl_abs.simps dbl_less.simps)
        moreover have "epsilon < 1"
          by (simp add: epsilon_def)
        ultimately show ?thesis
          using ratio_ge_1 [OF 2 r0] by linarith
      qed
    qed
    with \<open>xnew = Fin r\<close> show ?thesis by simp
  qed (use assms Fin in \<open>simp_all add: converged_def dbl_ops split: if_splits\<close>)
qed (use assms in \<open>cases xold; simp add: converged_def dbl_ops split: if_splits\<close>)+

lemma newton_body_break:
  assumes "newton_inv xold" "newton_body m iter (xold, yold) = ((xnew, ynew), True)"
  shows "finite_nonneg xnew"
proof -
  have "finite_nonneg (newton_next m xold)" if "converged xold (newton_next m xold)"
    using converged_pos [OF that assms(1)] by auto
  then show ?thesis
    using assms(2) by (auto simp: newton_body_eq split: if_splits)
qed

lemma less_zero_or_inv: "v < Fin 0 \<or> newton_inv v"
  by (cases v) (auto simp: less_dbl_def)

lemma newton_body_continue:
  assumes "newton_body m iter (xold, yold) = ((xnew, ynew), False)"
  shows "newton_inv xnew" "IterMax - 1 \<le> iter \<Longrightarrow> xnew = Fin 0"
  using assms less_zero_or_inv [of "newton_next m xold"]
  by (auto simp: newton_body_eq split: if_splits)

lemma for_lt_break_done: "\<not> i < n \<Longrightarrow> for_lt_break i n body s = s"
  by (simp add: for_lt_break.simps [of i])

lemma for_lt_break_step:
  "i < n \<Longrightarrow> for_lt_break i n body s =
     (if snd (body i s) then fst (body i s) else for_lt_break (i + 1) n body (fst (body i s)))"
  by (simp add: for_lt_break.simps [of i] split: prod.splits)

lemma newton_loop_finite_nonneg:
  assumes "i \<le> IterMax" "i = IterMax \<longrightarrow> finite_nonneg (fst s)" "newton_inv (fst s)"
  shows "finite_nonneg (fst (for_lt_break i IterMax (newton_body m) s))"
  using assms
proof (induction "nat (IterMax - i)" arbitrary: i s)
  case 0
  then show ?case
    by (simp add: for_lt_break_done)
next
  case (Suc k)
  then have lt: "i < IterMax"
    by linarith
  obtain xold yold where s: "s = (xold, yold)"
    by (cases s)
  obtain xnew ynew brk where body: "newton_body m i (xold, yold) = ((xnew, ynew), brk)"
    by (metis prod.exhaust)
  show ?case
  proof (cases brk)
    case True
    then have "finite_nonneg xnew"
      using newton_body_break [of xold m i yold xnew ynew] body Suc.prems(3) s by simp
    then show ?thesis
      using lt body True s by (simp add: for_lt_break_step)
  next
    case False
    have cont: "newton_inv xnew" "IterMax - 1 \<le> i \<Longrightarrow> xnew = Fin 0"
      using newton_body_continue [of m i xold yold xnew ynew] body False by simp_all
    have "finite_nonneg (fst (for_lt_break (i + 1) IterMax (newton_body m) (xnew, ynew)))"
    proof (rule Suc.hyps(1))
      show "k = nat (IterMax - (i + 1))"
        using Suc.hyps(2) by linarith
      show "i + 1 \<le> IterMax"
        using lt by simp
      show "i + 1 = IterMax \<longrightarrow> finite_nonneg (fst (xnew, ynew))"
        using cont(2) by auto
      show "newton_inv (fst (xnew, ynew))"
        using cont(1) by simp
    qed
    then show ?thesis
      using lt body False s by (simp add: for_lt_break_step)
  qed
qed

lemma newton_finite_nonneg: "finite_nonneg (newton m)"
  unfolding newton_def
  by (rule newton_loop_finite_nonneg) (simp_all add: IterMax_def)

lemma abs_not_less_zero: "\<not> \<bar>v\<bar> < Fin 0" for v :: dbl
  by (cases v) (simp_all add: dbl_ops)

lemma newton_body_A0_zero:
  assumes "A0 m = 0" "zero_or_nan xold"
  shows "\<not> snd (newton_body m iter (xold, yold))"
    "zero_or_nan (fst (fst (newton_body m iter (xold, yold))))"
    "IterMax - 1 \<le> iter \<Longrightarrow> fst (fst (newton_body m iter (xold, yold))) = Fin 0"
proof -
  have f: "newton_f m xold = (if xold = NaN then NaN else Fin 0)"
    using assms by (cases xold) (simp_all add: newton_f_def dbl_ops)
  have nxt: "zero_or_nan (newton_next m xold)"
    using assms(2) f by (cases xold; cases "newton_Dy m xold") (simp_all add: newton_next_def dbl_ops)
  have nb: "\<not> \<bar>newton_f m xold\<bar> > \<bar>yold\<bar>"
    using abs_not_less_zero [of yold] f by (cases xold; cases yold) (simp_all add: dbl_ops)
  have nc: "\<not> converged xold (newton_next m xold)"
    using nxt assms(2) by (cases xold; cases "newton_next m xold") (simp_all add: converged_def dbl_ops)
  have nn: "\<not> newton_next m xold < Fin 0"
    using nxt by (cases "newton_next m xold") (simp_all add: dbl_ops)
  show "\<not> snd (newton_body m iter (xold, yold))"
    "zero_or_nan (fst (fst (newton_body m iter (xold, yold))))"
    "IterMax - 1 \<le> iter \<Longrightarrow> fst (fst (newton_body m iter (xold, yold))) = Fin 0"
    using nb nc nn nxt by (simp_all add: newton_body_eq)
qed

lemma newton_loop_A0_zero:
  assumes "A0 m = 0" "i \<le> IterMax" "i = IterMax \<longrightarrow> fst s = Fin 0" "zero_or_nan (fst s)"
  shows "fst (for_lt_break i IterMax (newton_body m) s) = Fin 0"
  using assms(2-)
proof (induction "nat (IterMax - i)" arbitrary: i s)
  case 0
  then show ?case
    by (simp add: for_lt_break_done)
next
  case (Suc k)
  then have lt: "i < IterMax"
    by linarith
  obtain xold yold where s: "s = (xold, yold)"
    by (cases s)
  note body = newton_body_A0_zero [OF assms(1), of xold i yold]
  have z: "zero_or_nan xold"
    using Suc.prems(3) s by simp
  have "fst (for_lt_break (i + 1) IterMax (newton_body m) (fst (newton_body m i (xold, yold)))) = Fin 0"
  proof (rule Suc.hyps(1))
    show "k = nat (IterMax - (i + 1))"
      using Suc.hyps(2) by linarith
    show "i + 1 \<le> IterMax"
      using lt by simp
    show "i + 1 = IterMax \<longrightarrow> fst (fst (newton_body m i (xold, yold))) = Fin 0"
      using body(3) [OF z] by auto
    show "zero_or_nan (fst (fst (newton_body m i (xold, yold))))"
      using body(2) [OF z] .
  qed
  then show ?case
    using lt s body(1) [OF z] by (simp add: for_lt_break_step)
qed

lemma newton_A0_zero: "A0 m = 0 \<Longrightarrow> newton m = Fin 0"
  unfolding newton_def
  by (rule newton_loop_A0_zero) (simp_all add: IterMax_def)

text \<open>C5: the Newton loop of \<^verbatim>\<open>FitCircle\<close> leaves a finite \<open>x\<close> that is not negative, for
  all coefficients. At the head of every pass \<open>x\<close> is a finite number that is not
  negative, \<open>+\<infinity>\<close> or NaN (\<open>newton_inv\<close> holds at the start and after every pass that does
  not break), and in every pass: if \<open>|f(x)|\<close> exceeds the previous \<open>|f|\<close> the pass breaks
  with \<open>x = 0\<close>; if the updated \<open>x\<close> is negative, \<open>x\<close> becomes \<open>0\<close> and the loop ends (by
  \<^verbatim>\<open>break\<close>, or because the pass was the last one); in the last pass, \<open>x\<close> becomes \<open>0\<close>
  unless the convergence test succeeded; and a pass that breaks leaves a finite \<open>x\<close> that
  is not negative.\<close>

theorem newton_safety:
  "finite_nonneg (newton m)
   \<and> newton_inv (Fin 0)
   \<and> (newton_inv xold \<and> \<not> snd (newton_body m iter (xold, yold)) \<longrightarrow>
        newton_inv (fst (fst (newton_body m iter (xold, yold)))))
   \<and> (newton_inv xold \<and> snd (newton_body m iter (xold, yold)) \<longrightarrow>
        finite_nonneg (fst (fst (newton_body m iter (xold, yold)))))
   \<and> (\<bar>newton_f m xold\<bar> > \<bar>yold\<bar> \<longrightarrow>
        newton_body m iter (xold, yold) = ((Fin 0, newton_f m xold), True))
   \<and> (newton_inv xold \<and> \<not> \<bar>newton_f m xold\<bar> > \<bar>yold\<bar> \<and> newton_next m xold < Fin 0 \<longrightarrow>
        fst (fst (newton_body m iter (xold, yold))) = Fin 0
        \<and> (snd (newton_body m iter (xold, yold)) \<or> IterMax - 1 \<le> iter))
   \<and> (IterMax - 1 \<le> iter \<and> \<not> converged xold (newton_next m xold) \<longrightarrow>
        fst (fst (newton_body m iter (xold, yold))) = Fin 0)"
proof -
  obtain xnew ynew brk where body: "newton_body m iter (xold, yold) = ((xnew, ynew), brk)"
    by (metis prod.exhaust)
  have inv: "newton_inv xnew" if "newton_inv xold" "\<not> brk"
    using newton_body_continue(1) [of m iter xold yold xnew ynew] body that by simp
  have brk: "finite_nonneg xnew" if "newton_inv xold" "brk"
    using newton_body_break [of xold m iter yold xnew ynew] body that by simp
  have r1: "newton_body m iter (xold, yold) = ((Fin 0, newton_f m xold), True)"
    if "\<bar>newton_f m xold\<bar> > \<bar>yold\<bar>"
    using that by (simp add: newton_body_eq)
  have r2: "fst (fst (newton_body m iter (xold, yold))) = Fin 0
        \<and> (snd (newton_body m iter (xold, yold)) \<or> IterMax - 1 \<le> iter)"
    if "newton_inv xold" "\<not> \<bar>newton_f m xold\<bar> > \<bar>yold\<bar>" "newton_next m xold < Fin 0"
  proof -
    have "\<not> converged xold (newton_next m xold)"
    proof
      assume "converged xold (newton_next m xold)"
      from converged_pos [OF this that(1)] that(3) show False
        by (auto simp: dbl_ops)
    qed
    then show ?thesis
      using that by (simp add: newton_body_eq)
  qed
  have r3: "fst (fst (newton_body m iter (xold, yold))) = Fin 0"
    if "IterMax - 1 \<le> iter" "\<not> converged xold (newton_next m xold)"
    using that by (simp add: newton_body_eq)
  show ?thesis
    using newton_finite_nonneg [of m] inv brk r1 r2 r3 unfolding body
    by (simp del: newton_inv.simps finite_nonneg.simps) simp
qed

lemma coeffs_simps [simp]:
  "A0 (coeffs a0 a1) = a0" "A1 (coeffs a0 a1) = a1" "A2 (coeffs a0 a1) = 0" "A22 (coeffs a0 a1) = 0"
  by (simp_all add: coeffs_def)

theorem newton_safety_witness:
  "finite_nonneg (newton (coeffs 1 1))
   \<and> (\<bar>newton_f (coeffs 1 1) (Fin 0)\<bar> > \<bar>Fin 0\<bar>
      \<and> newton_body (coeffs 1 1) 0 (Fin 0, Fin 0) = ((Fin 0, Fin 1), True))
   \<and> (newton_inv (Fin 0) \<and> \<not> \<bar>newton_f (coeffs 1 1) (Fin 0)\<bar> > \<bar>Fin (10 ^ 20)\<bar>
      \<and> newton_next (coeffs 1 1) (Fin 0) < Fin 0
      \<and> fst (fst (newton_body (coeffs 1 1) 0 (Fin 0, Fin (10 ^ 20)))) = Fin 0
      \<and> snd (newton_body (coeffs 1 1) 0 (Fin 0, Fin (10 ^ 20))))
   \<and> (IterMax - 1 \<le> 19 \<and> \<not> converged (Fin 0) (newton_next (coeffs (- 1) 1) (Fin 0))
      \<and> fst (fst (newton_body (coeffs (- 1) 1) 19 (Fin 0, Fin (10 ^ 20)))) = Fin 0)
   \<and> (\<not> snd (newton_body (coeffs (- 1) 1) 0 (Fin 0, Fin (10 ^ 20)))
      \<and> newton_inv (fst (fst (newton_body (coeffs (- 1) 1) 0 (Fin 0, Fin (10 ^ 20))))))"
proof -
  have f1: "newton_f (coeffs 1 1) (Fin 0) = Fin 1"
    by (simp add: newton_f_def dbl_ops)
  have n1: "newton_next (coeffs 1 1) (Fin 0) = Fin (- 1)"
    by (simp add: newton_next_def newton_f_def newton_Dy_def dbl_ops)
  have n2: "newton_next (coeffs (- 1) 1) (Fin 0) = Fin 1"
    by (simp add: newton_next_def newton_f_def newton_Dy_def dbl_ops)
  have f2: "newton_f (coeffs (- 1) 1) (Fin 0) = Fin (- 1)"
    by (simp add: newton_f_def dbl_ops)
  have h1: "\<bar>newton_f (coeffs 1 1) (Fin 0)\<bar> > \<bar>Fin 0\<bar>"
    by (simp add: f1 dbl_ops)
  have h2: "newton_inv (Fin 0)" "\<not> \<bar>newton_f (coeffs 1 1) (Fin 0)\<bar> > \<bar>Fin (10 ^ 20)\<bar>"
    "newton_next (coeffs 1 1) (Fin 0) < Fin 0"
    by (simp_all add: f1 n1 dbl_ops)
  have h3: "IterMax - 1 \<le> 19" "\<not> converged (Fin 0) (newton_next (coeffs (- 1) 1) (Fin 0))"
    by (simp_all add: IterMax_def n2 converged_def dbl_ops epsilon_def)
  have h4: "\<not> snd (newton_body (coeffs (- 1) 1) 0 (Fin 0, Fin (10 ^ 20)))"
    using h3(2) by (simp add: newton_body_eq f2 n2 dbl_ops IterMax_def)
  note a = newton_safety [where m = "coeffs 1 1" and xold = "Fin 0" and iter = 0 and yold = "Fin 0"]
  note b = newton_safety [where m = "coeffs 1 1" and xold = "Fin 0" and iter = 0 and yold = "Fin (10 ^ 20)"]
  note c = newton_safety [where m = "coeffs (- 1) 1" and xold = "Fin 0" and iter = 19 and yold = "Fin (10 ^ 20)"]
  note d = newton_safety [where m = "coeffs (- 1) 1" and xold = "Fin 0" and iter = 0 and yold = "Fin (10 ^ 20)"]
  have c1: "newton_body (coeffs 1 1) 0 (Fin 0, Fin 0) = ((Fin 0, Fin 1), True)"
    using a h1 by (simp add: f1)
  have c2: "fst (fst (newton_body (coeffs 1 1) 0 (Fin 0, Fin (10 ^ 20)))) = Fin 0
      \<and> snd (newton_body (coeffs 1 1) 0 (Fin 0, Fin (10 ^ 20)))"
    using b h2 by (simp add: IterMax_def)
  have c3: "fst (fst (newton_body (coeffs (- 1) 1) 19 (Fin 0, Fin (10 ^ 20)))) = Fin 0"
    using c h3 by blast
  have c4: "newton_inv (fst (fst (newton_body (coeffs (- 1) 1) 0 (Fin 0, Fin (10 ^ 20)))))"
    using d h2(1) h4 by blast
  have c0: "finite_nonneg (newton (coeffs 1 1))"
    using a by blast
  show ?thesis
    using c0 c1 c2 c3 c4 h1 h2 h3 h4 by blast
qed

section \<open>Rounding to double precision\<close>

lemma floor_log2_eq:
  fixes v :: real
  assumes "2 powi k \<le> \<bar>v\<bar>" "\<bar>v\<bar> < 2 powi (k + 1)"
  shows "\<lfloor>log 2 \<bar>v\<bar>\<rfloor> = k"
proof -
  have "0 < (2::real) powi k"
    by simp
  hence pos: "0 < \<bar>v\<bar>"
    using assms(1) by linarith
  have "2 powr (of_int k) \<le> \<bar>v\<bar>"
    using assms(1) by (simp add: powr_real_of_int')
  hence 1: "of_int k \<le> log 2 \<bar>v\<bar>"
    using pos by (simp add: le_log_iff)
  have "(2::real) powr (of_int (k + 1)) = 2 powi (k + 1)"
    by (rule powr_real_of_int') (simp, rule disjI1, simp)
  hence "\<bar>v\<bar> < 2 powr (of_int (k + 1))"
    using assms(2) by simp
  hence 2: "log 2 \<bar>v\<bar> < of_int (k + 1)"
    using pos by (subst log_less_iff) simp_all
  show ?thesis
    using 1 2 by linarith
qed

text \<open>The rounding of a value whose leading bit is known: the rule by which the roundings
  of the concrete evaluations below are computed.\<close>

lemma binary64_eq:
  assumes "2 powi k \<le> \<bar>v\<bar>" "\<bar>v\<bar> < 2 powi (k + 1)" "- 1022 \<le> k"
  shows "binary64 v = of_int (round_to_even (v / 2 powi (k - 52))) * 2 powi (k - 52)"
proof -
  have pos: "0 < (2::real) powi k"
    by simp
  have "v \<noteq> 0"
  proof
    assume "v = 0"
    hence "(2::real) powi k \<le> 0"
      using assms(1) by simp
    thus False
      using pos by linarith
  qed
  moreover have "max (\<lfloor>log 2 \<bar>v\<bar>\<rfloor> - 52) (- 1074) = k - 52"
    using floor_log2_eq [OF assms(1,2)] assms(3) by simp
  ultimately show ?thesis
    by (simp add: binary64_def Let_def)
qed

text \<open>An integer below \<open>2\<^sup>5\<^sup>3\<close> in magnitude is a \<^verbatim>\<open>double\<close>.\<close>

lemma round_to_even_of_int: "round_to_even (of_int m) = m"
  by (simp add: round_to_even_def)

lemma binary64_of_int:
  assumes "\<bar>n\<bar> < 2 ^ 53"
  shows "binary64 (of_int n) = of_int n"
proof (cases "n = 0")
  case True
  then show ?thesis
    by (simp add: binary64_def)
next
  case False
  define k where "k = \<lfloor>log 2 \<bar>real_of_int n\<bar>\<rfloor>"
  have "1 \<le> \<bar>n\<bar>"
    using False by linarith
  hence "(1::real) \<le> of_int \<bar>n\<bar>"
    by (simp only: of_int_1_le_iff)
  hence ge1: "1 \<le> \<bar>real_of_int n\<bar>"
    by simp
  have "0 \<le> log 2 \<bar>real_of_int n\<bar>"
    using ge1 by simp
  hence k0: "0 \<le> k"
    by (simp add: k_def)
  have "real_of_int \<bar>n\<bar> < 2 ^ 53"
    using assms by (simp only: of_int_less_numeral_power_cancel_iff)
  hence "\<bar>real_of_int n\<bar> < 2 ^ 53"
    by simp
  hence "log 2 \<bar>real_of_int n\<bar> < 53"
    using ge1 by (subst log_less_iff) simp_all
  hence k52: "k \<le> 52"
    unfolding k_def by linarith
  define j where "j = nat (52 - k)"
  have e: "max (k - 52) (- 1074) = k - 52"
    using k0 by simp
  have p: "(2::real) powi (k - 52) = 1 / 2 ^ j"
    using k52 by (simp add: j_def power_int_def inverse_eq_divide power_one_over)
  have "real_of_int n / 2 powi (k - 52) = of_int (n * 2 ^ j)"
    by (simp add: p)
  hence "round_to_even (real_of_int n / 2 powi (k - 52)) = n * 2 ^ j"
    by (simp only: round_to_even_of_int)
  thus ?thesis
    using False by (simp add: binary64_def Let_def e p flip: k_def)
qed

lemma binary64_numeral: "numeral w < (2::int) ^ 53 \<Longrightarrow> binary64 (numeral w) = numeral w"
  using binary64_of_int [of "numeral w"] by simp

lemma binary64_neg_numeral: "numeral w < (2::int) ^ 53 \<Longrightarrow> binary64 (- numeral w) = - numeral w"
  using binary64_of_int [of "- numeral w"] by simp

lemma binary64_0: "binary64 0 = 0"
  by (simp add: binary64_def)

lemma binary64_1: "binary64 1 = 1"
  using binary64_of_int [of 1] by simp

lemmas binary64_int = binary64_0 binary64_1 binary64_numeral binary64_neg_numeral

section \<open>The ellipse fit\<close>

lemma EllipseShape_default_invalid [simp]: "\<not> valid EllipseShape_default"
  by (simp add: EllipseShape_default_def)

subsection \<open>Exact arithmetic\<close>

text \<open>With the rounding \<open>\<lambda>v. v\<close> the computed values are those of exact arithmetic. There the
  determinant \<^verbatim>\<open>det\<close> of points on one straight line is \<open>0\<close>, and \<^verbatim>\<open>det_S3\<close> is \<open>n\<close> times
  \<^verbatim>\<open>det\<close>.\<close>

lemma centroid_fold:
  "fold (\<lambda>p (sum_x, sum_y). (sum_x + x p, sum_y + y p)) ps (s, t) =
     (s + sum_list (map x ps), t + sum_list (map y ps))"
  by (induction ps arbitrary: s t) (simp_all add: add.assoc)


lemma weighted_sum_zero:
  assumes "\<forall>q \<in> set ts. a * x q + b * y q = (0::real)"
  shows "a * sum_list (map (\<lambda>q. x q * w q) ts) + b * sum_list (map (\<lambda>q. y q * w q) ts) = 0"
proof -
  have "a * sum_list (map (\<lambda>q. x q * w q) ts) + b * sum_list (map (\<lambda>q. y q * w q) ts)
        = sum_list (map (\<lambda>q. (a * x q + b * y q) * w q) ts)"
    by (simp add: sum_list_const_mult [symmetric] sum_list_addf [symmetric] algebra_simps)
  also have "\<dots> = sum_list (map (\<lambda>q. 0) ts)"
    using assms by (intro arg_cong [where f = sum_list] map_cong) auto
  finally show ?thesis
    by simp
qed

lemma translate_pts_on_line:
  assumes "pts \<noteq> []" "\<forall>p \<in> set pts. a * x p + b * y p = c"
  shows "\<forall>q \<in> set (translate_pts pts). a * x q + b * y q = 0"
proof -
  let ?n = "real (length pts)"
  have n: "?n \<noteq> 0"
    using assms(1) by simp
  have "a * sum_list (map x pts) + b * sum_list (map y pts)
        = sum_list (map (\<lambda>p. a * x p + b * y p) pts)"
    by (simp add: sum_list_const_mult [symmetric] sum_list_addf [symmetric])
  also have "\<dots> = sum_list (map (\<lambda>p. c) pts)"
    using assms(2) by (intro arg_cong [where f = sum_list] map_cong) auto
  also have "\<dots> = ?n * c"
    by (simp add: sum_list_triv)
  finally have avg: "a * (sum_list (map x pts) / ?n) + b * (sum_list (map y pts) / ?n) = c"
    using n by (simp add: field_simps)
  show ?thesis
  proof
    fix q assume "q \<in> set (translate_pts pts)"
    then obtain p where p: "p \<in> set pts"
      and q: "q = \<lparr>x = x p - sum_list (map x pts) / ?n, y = y p - sum_list (map y pts) / ?n\<rparr>"
      by (auto simp: translate_pts_def)
    have "a * x q + b * y q
          = (a * x p + b * y p) - (a * (sum_list (map x pts) / ?n) + b * (sum_list (map y pts) / ?n))"
      by (simp add: q algebra_simps)
    then show "a * x q + b * y q = 0"
      using assms(2) p avg by simp
  qed
qed

lemma collinear_algebra:
  fixes a b :: real
  assumes ab: "a \<noteq> 0 \<or> b \<noteq> 0"
    and 1: "a * mxx + b * mxy = 0" and 2: "a * mxy + b * myy = 0" and 3: "a * mxz + b * myz = 0"
  shows "mxx * myy - mxy * mxy = 0" "mxz * myy - myz * mxy = 0" "myz * mxx - mxz * mxy = 0"
proof -
  have "a * (mxx * myy - mxy * mxy) = (a * mxx + b * mxy) * myy - (a * mxy + b * myy) * mxy"
    by (simp add: algebra_simps)
  then have a1: "a * (mxx * myy - mxy * mxy) = 0"
    by (simp add: 1 2)
  have "b * (mxx * myy - mxy * mxy) = mxx * (a * mxy + b * myy) - mxy * (a * mxx + b * mxy)"
    by (simp add: algebra_simps)
  then have b1: "b * (mxx * myy - mxy * mxy) = 0"
    by (simp add: 1 2)
  show "mxx * myy - mxy * mxy = 0"
    using ab a1 b1 by auto
  have "a * (mxz * myy - myz * mxy) = (a * mxz + b * myz) * myy - myz * (a * mxy + b * myy)"
    by (simp add: algebra_simps)
  then have a2: "a * (mxz * myy - myz * mxy) = 0"
    by (simp add: 2 3)
  have "b * (mxz * myy - myz * mxy) = mxz * (a * mxy + b * myy) - (a * mxz + b * myz) * mxy"
    by (simp add: algebra_simps)
  then have b2: "b * (mxz * myy - myz * mxy) = 0"
    by (simp add: 2 3)
  show "mxz * myy - myz * mxy = 0"
    using ab a2 b2 by auto
  have "a * (myz * mxx - mxz * mxy) = myz * (a * mxx + b * mxy) - (a * mxz + b * myz) * mxy"
    by (simp add: algebra_simps)
  then have a3: "a * (myz * mxx - mxz * mxy) = 0"
    by (simp add: 1 3)
  have "b * (myz * mxx - mxz * mxy) = (a * mxz + b * myz) * mxx - mxz * (a * mxx + b * mxy)"
    by (simp add: algebra_simps)
  then have b3: "b * (myz * mxx - mxz * mxy) = 0"
    by (simp add: 1 3)
  show "myz * mxx - mxz * mxy = 0"
    using ab a3 b3 by auto
qed


lemma var_fold:
  "fold (\<lambda>p (var_x, var_y, covar).
            let dx = x p - mean_x;
                dy = y p - mean_y
            in (var_x + dx * dx, var_y + dy * dy, covar + dx * dy))
        ps (a1, a2, a3) =
     (a1 + sum_list (map (\<lambda>p. (x p - mean_x) * (x p - mean_x)) ps),
      a2 + sum_list (map (\<lambda>p. (y p - mean_y) * (y p - mean_y)) ps),
      a3 + sum_list (map (\<lambda>p. (x p - mean_x) * (y p - mean_y)) ps))"
  by (induction ps arbitrary: a1 a2 a3) (simp_all add: Let_def add.assoc)

lemma FitEllipse_mean_eq:
  "FitEllipse_mean (\<lambda>v. v) pts =
     (sum_list (map x pts) / real (length pts), sum_list (map y pts) / real (length pts))"
  unfolding FitEllipse_mean_def centroid_fold by (simp add: Let_def)

lemma FitEllipse_var_eq:
  "FitEllipse_var (\<lambda>v. v) pts =
     (sum_list (map (\<lambda>q. x q * x q) (translate_pts pts)),
      sum_list (map (\<lambda>q. y q * y q) (translate_pts pts)),
      sum_list (map (\<lambda>q. x q * y q) (translate_pts pts)))"
  unfolding FitEllipse_var_def FitEllipse_mean_eq
  by (simp add: var_fold translate_pts_def comp_def)

lemma FitEllipse_det_collinear:
  assumes "pts \<noteq> []" "on_line a b c pts"
  shows "FitEllipse_det (\<lambda>v. v) pts = 0"
proof -
  let ?ts = "translate_pts pts"
  have ab: "a \<noteq> 0 \<or> b \<noteq> 0" and line: "\<forall>p \<in> set pts. a * x p + b * y p = c"
    using assms(2) by (simp_all add: on_line_def list_all_iff)
  note zero = weighted_sum_zero [OF translate_pts_on_line [OF assms(1) line]]
  have 1: "a * sum_list (map (\<lambda>q. x q * x q) ?ts) + b * sum_list (map (\<lambda>q. x q * y q) ?ts) = 0"
    using zero [of x] by (simp add: mult.commute)
  have 2: "a * sum_list (map (\<lambda>q. x q * y q) ?ts) + b * sum_list (map (\<lambda>q. y q * y q) ?ts) = 0"
    by (rule zero [of y])
  have 3: "a * 0 + b * 0 = (0::real)"
    by simp
  from collinear_algebra(1) [OF ab 1 2 3] show ?thesis
    by (simp add: FitEllipse_det_def FitEllipse_var_eq)
qed

lemma fold_index:
  "fold (\<lambda>k s. s + f (rs ! k)) [0..<length rs] (a::real) = a + sum_list (map f rs)"
proof -
  have "fold (\<lambda>r s. s + f r) rs a = a + sum_list (map f rs)" for a
    by (induction rs arbitrary: a) (simp_all add: add.assoc)
  moreover have "fold (\<lambda>k s. s + f (rs ! k)) [0..<length rs] a = fold (\<lambda>r s. s + f r) (map ((!) rs) [0..<length rs]) a"
    by (simp add: fold_map comp_def)
  ultimately show ?thesis
    by (simp add: map_nth)
qed

lemma FitEllipse_S3_eq:
  "FitEllipse_S3 (\<lambda>v. v) pts i j = sum_list (map (\<lambda>p. [x p, y p, 1] ! i * [x p, y p, 1] ! j) pts)"
proof -
  have "FitEllipse_S3 (\<lambda>v. v) pts i j =
        fold (\<lambda>k s. s + (\<lambda>r. r ! i * r ! j) (FitEllipse_D2 pts ! k)) [0..<length (FitEllipse_D2 pts)] 0"
    by (simp add: FitEllipse_S3_def FitEllipse_D2_def Let_def)
  also have "\<dots> = sum_list (map (\<lambda>r. r ! i * r ! j) (FitEllipse_D2 pts))"
    using fold_index [of "\<lambda>r. r ! i * r ! j" "FitEllipse_D2 pts" 0] by simp
  finally show ?thesis
    by (simp add: FitEllipse_D2_def comp_def)
qed

lemma translate_sums:
  fixes pts :: "Point list"
  defines "n \<equiv> real (length pts)"
  defines "sx \<equiv> sum_list (map x pts)" and "sy \<equiv> sum_list (map y pts)"
  assumes "pts \<noteq> []"
  shows "sum_list (map (\<lambda>q. x q * x q) (translate_pts pts)) = sum_list (map (\<lambda>p. x p * x p) pts) - sx * sx / n"
    "sum_list (map (\<lambda>q. y q * y q) (translate_pts pts)) = sum_list (map (\<lambda>p. y p * y p) pts) - sy * sy / n"
    "sum_list (map (\<lambda>q. x q * y q) (translate_pts pts)) = sum_list (map (\<lambda>p. x p * y p) pts) - sx * sy / n"
proof -
  have n: "n \<noteq> 0"
    using assms by simp
  have expand: "sum_list (map (\<lambda>p. (f p - u) * (g p - v)) pts) =
        sum_list (map (\<lambda>p. f p * g p) pts) - v * sum_list (map f pts) - u * sum_list (map g pts) + n * (u * v)"
    for f g :: "Point \<Rightarrow> real" and u v
  proof -
    have "(\<lambda>p. (f p - u) * (g p - v)) = (\<lambda>p. (f p * g p + (- v) * f p) + ((- u) * g p + u * v))"
      by (simp add: algebra_simps fun_eq_iff)
    then show ?thesis
      by (simp only: sum_list_addf sum_list_const_mult sum_list_triv n_def) (simp add: algebra_simps)
  qed
  show "sum_list (map (\<lambda>q. x q * x q) (translate_pts pts)) = sum_list (map (\<lambda>p. x p * x p) pts) - sx * sx / n"
    using n by (simp add: translate_pts_def comp_def expand flip: n_def sx_def sy_def; simp add: field_simps)
  show "sum_list (map (\<lambda>q. y q * y q) (translate_pts pts)) = sum_list (map (\<lambda>p. y p * y p) pts) - sy * sy / n"
    using n by (simp add: translate_pts_def comp_def expand flip: n_def sx_def sy_def; simp add: field_simps)
  show "sum_list (map (\<lambda>q. x q * y q) (translate_pts pts)) = sum_list (map (\<lambda>p. x p * y p) pts) - sx * sy / n"
    using n by (simp add: translate_pts_def comp_def expand flip: n_def sx_def sy_def; simp add: field_simps)
qed

lemma FitEllipse_det_S3_eq:
  assumes "pts \<noteq> []"
  shows "FitEllipse_det_S3 (\<lambda>v. v) pts = real (length pts) * FitEllipse_det (\<lambda>v. v) pts"
proof -
  have n: "real (length pts) \<noteq> 0"
    using assms by simp
  have ones: "sum_list (map (\<lambda>p. 1) pts) = real (length pts)"
    by (simp add: sum_list_triv)
  show ?thesis
    unfolding FitEllipse_det_S3_def FitEllipse_det_def FitEllipse_var_eq translate_sums [OF assms]
      FitEllipse_S3_eq Let_def
    using n by (simp add: ones mult.commute [of "y _" "x _"]) (simp add: field_simps)
qed


text \<open>So in exact arithmetic a point set of at least five points that has passed the
  collinearity check (\<open>|det| \<ge> 10\<^sup>-\<^sup>6\<close>) always passes the test \<open>|det_S3| < 10\<^sup>-\<^sup>1\<^sup>0\<close> as well:
  that test can only reject through rounding.\<close>

lemma FitEllipse_det_S3_guard:
  assumes "5 \<le> length pts" "\<not> \<bar>FitEllipse_det (\<lambda>v. v) pts\<bar> < 1 / 10 ^ 6"
  shows "\<not> \<bar>FitEllipse_det_S3 (\<lambda>v. v) pts\<bar> < 1 / 10 ^ 10"
proof -
  have ne: "pts \<noteq> []"
    using assms(1) by auto
  have "1 / 10 ^ 6 \<le> \<bar>FitEllipse_det (\<lambda>v. v) pts\<bar>"
    using assms(2) by simp
  moreover have "5 \<le> real (length pts)"
    using assms(1) by simp
  ultimately have "5 * (1 / 10 ^ 6) \<le> real (length pts) * \<bar>FitEllipse_det (\<lambda>v. v) pts\<bar>"
    by (intro mult_mono) simp_all
  then show ?thesis
    by (simp add: FitEllipse_det_S3_eq [OF ne] abs_mult)
qed


subsection \<open>Double precision\<close>

text \<open>The roundings that occur in the evaluations below.\<close>

lemma binary64_ellipse_1: "binary64 (- (7975124340135253 / 35184372088832)) = - (7975124340135253 / 35184372088832)"
  by (subst binary64_eq [of "7"]) (simp_all add: round_to_even_def Let_def)

lemma binary64_ellipse_2: "binary64 (- (5160374573028693 / 35184372088832)) = - (5160374573028693 / 35184372088832)"
  by (subst binary64_eq [of "7"]) (simp_all add: round_to_even_def Let_def)

lemma binary64_ellipse_3: "binary64 (- (3987562170067627 / 35184372088832)) = - (3987562170067627 / 35184372088832)"
  by (subst binary64_eq [of "6"]) (simp_all add: round_to_even_def Let_def)

lemma binary64_ellipse_4: "binary64 (- (2580187286514347 / 35184372088832)) = - (2580187286514347 / 35184372088832)"
  by (subst binary64_eq [of "6"]) (simp_all add: round_to_even_def Let_def)

lemma binary64_ellipse_5: "binary64 (- (2345624805922133 / 35184372088832)) = - (2345624805922133 / 35184372088832)"
  by (subst binary64_eq [of "6"]) (simp_all add: round_to_even_def Let_def)

lemma binary64_ellipse_6: "binary64 (- (1172812402961067 / 35184372088832)) = - (1172812402961067 / 35184372088832)"
  by (subst binary64_eq [of "5"]) (simp_all add: round_to_even_def Let_def)

lemma binary64_ellipse_7: "binary64 (- (1 / 524288)) = - (1 / 524288)"
  by (subst binary64_eq [of "- 19"]) (simp_all add: round_to_even_def Let_def)

lemma binary64_ellipse_8: "binary64 (1 / 10000000000) = 7737125245533627 / 77371252455336267181195264"
  by (subst binary64_eq [of "- 34"]) (simp_all add: round_to_even_def Let_def)

lemma binary64_ellipse_9: "binary64 (1 / 1000000) = 4722366482869645 / 4722366482869645213696"
  by (subst binary64_eq [of "- 20"]) (simp_all add: round_to_even_def Let_def)

lemma binary64_ellipse_10: "binary64 (884279719003555 / 562949953421312) = 884279719003555 / 562949953421312"
  by (subst binary64_eq [of "0"]) (simp_all add: round_to_even_def Let_def)

lemma binary64_ellipse_11: "binary64 (1025017207358883 / 562949953421312) = 1025017207358883 / 562949953421312"
  by (subst binary64_eq [of "0"]) (simp_all add: round_to_even_def Let_def)

lemma binary64_ellipse_12: "binary64 (157079632679489661923 / 50000000000000000000) = 884279719003555 / 281474976710656"
  by (subst binary64_eq [of "1"]) (simp_all add: round_to_even_def Let_def)

lemma binary64_ellipse_13: "binary64 (234562480592213 / 35184372088832) = 234562480592213 / 35184372088832"
  by (subst binary64_eq [of "2"]) (simp_all add: round_to_even_def Let_def)

lemma binary64_ellipse_14: "binary64 (469124961184427 / 35184372088832) = 469124961184427 / 35184372088832"
  by (subst binary64_eq [of "3"]) (simp_all add: round_to_even_def Let_def)

lemma binary64_ellipse_15: "binary64 (55019557301572300287196237369 / 1237940039285380274899124224) = 1563749870614751 / 35184372088832"
  by (subst binary64_eq [of "5"]) (simp_all add: round_to_even_def Let_def)

lemma binary64_ellipse_16: "binary64 (1641937364145493 / 35184372088832) = 1641937364145493 / 35184372088832"
  by (subst binary64_eq [of "5"]) (simp_all add: round_to_even_def Let_def)

lemma binary64_ellipse_17: "binary64 (110039114603144835136873066951 / 1237940039285380274899124224) = 3127499741229509 / 35184372088832"
  by (subst binary64_eq [of "6"]) (simp_all add: round_to_even_def Let_def)

lemma binary64_ellipse_18: "binary64 (3283874728290987 / 35184372088832) = 3283874728290987 / 35184372088832"
  by (subst binary64_eq [of "6"]) (simp_all add: round_to_even_def Let_def)

lemma binary64_ellipse_19: "binary64 (400 / 3) = 4691249611844267 / 35184372088832"
  by (subst binary64_eq [of "7"]) (simp_all add: round_to_even_def Let_def)

lemma binary64_ellipse_20: "binary64 (5864062014805333 / 35184372088832) = 5864062014805333 / 35184372088832"
  by (subst binary64_eq [of "7"]) (simp_all add: round_to_even_def Let_def)

lemma binary64_ellipse_21: "binary64 (220078229206290139398707318329 / 1237940039285380274899124224) = 6254999482459031 / 35184372088832"
  by (subst binary64_eq [of "7"]) (simp_all add: round_to_even_def Let_def)

lemma binary64_ellipse_22: "binary64 (740 / 3) = 8678811781911893 / 35184372088832"
  by (subst binary64_eq [of "7"]) (simp_all add: round_to_even_def Let_def)

lemma binary64_ellipse_23: "binary64 (11728124029610667 / 35184372088832) = 2932031007402667 / 8796093022208"
  by (subst binary64_eq [of "8"]) (simp_all add: round_to_even_def Let_def)

lemma binary64_ellipse_24: "binary64 (1375488932539312198429517778489 / 1237940039285380274899124224) = 2443359172835557 / 2199023255552"
  by (subst binary64_eq [of "10"]) (simp_all add: round_to_even_def Let_def)

lemma binary64_ellipse_25: "binary64 (2695958307777049281822072213049 / 1237940039285380274899124224) = 4788983978757687 / 2199023255552"
  by (subst binary64_eq [of "11"]) (simp_all add: round_to_even_def Let_def)

lemma binary64_ellipse_26: "binary64 (2750977865078623224046632595911 / 1237940039285380274899124224) = 610839793208889 / 274877906944"
  by (subst binary64_eq [of "11"]) (simp_all add: round_to_even_def Let_def)

lemma binary64_ellipse_27: "binary64 (5391916615554100205581508571591 / 1237940039285380274899124224) = 598622997344711 / 137438953472"
  by (subst binary64_eq [of "12"]) (simp_all add: round_to_even_def Let_def)

lemma binary64_ellipse_28: "binary64 (5501955730157244102468459269689 / 1237940039285380274899124224) = 2443359172835555 / 549755813888"
  by (subst binary64_eq [of "12"]) (simp_all add: round_to_even_def Let_def)

lemma binary64_ellipse_29: "binary64 (6657366433490268976249036836409 / 1237940039285380274899124224) = 2956464599131023 / 549755813888"
  by (subst binary64_eq [of "12"]) (simp_all add: round_to_even_def Let_def)

lemma binary64_ellipse_30: "binary64 (10783833231108203695037745434169 / 1237940039285380274899124224) = 2394491989378845 / 274877906944"
  by (subst binary64_eq [of "13"]) (simp_all add: round_to_even_def Let_def)

lemma binary64_ellipse_31: "binary64 (13314732866980535372310787158471 / 1237940039285380274899124224) = 5912929198262045 / 549755813888"
  by (subst binary64_eq [of "13"]) (simp_all add: round_to_even_def Let_def)

lemma binary64_ellipse_32: "binary64 (15900652060154442633745753411129 / 1237940039285380274899124224) = 7061308009494757 / 549755813888"
  by (subst binary64_eq [of "13"]) (simp_all add: round_to_even_def Let_def)

lemma binary64_ellipse_33: "binary64 (7061308009494757 / 549755813888) = 7061308009494757 / 549755813888"
  by (subst binary64_eq [of "13"]) (simp_all add: round_to_even_def Let_def)

lemma binary64_ellipse_34: "binary64 (2504443152156445 / 137438953472) = 2504443152156445 / 137438953472"
  by (subst binary64_eq [of "14"]) (simp_all add: round_to_even_def Let_def)

lemma binary64_ellipse_35: "binary64 (42514449607338677 / 2199023255552) = 5314306200917335 / 274877906944"
  by (subst binary64_eq [of "14"]) (simp_all add: round_to_even_def Let_def)

lemma binary64_ellipse_36: "binary64 (681794943588033631 / 35184372088832) = 5326522996781513 / 274877906944"
  by (subst binary64_eq [of "14"]) (simp_all add: round_to_even_def Let_def)

lemma binary64_ellipse_37: "binary64 (26629465733961065584247001288249 / 1237940039285380274899124224) = 1478232299565511 / 68719476736"
  by (subst binary64_eq [of "14"]) (simp_all add: round_to_even_def Let_def)

lemma binary64_ellipse_38: "binary64 (47401167953009791 / 2199023255552) = 370321624632889 / 17179869184"
  by (subst binary64_eq [of "14"]) (simp_all add: round_to_even_def Let_def)

lemma binary64_ellipse_39: "binary64 (31801304120308881279929336754631 / 1237940039285380274899124224) = 1765327002373689 / 68719476736"
  by (subst binary64_eq [of "14"]) (simp_all add: round_to_even_def Let_def)

lemma binary64_ellipse_40: "binary64 (1765327002373689 / 68719476736) = 1765327002373689 / 68719476736"
  by (subst binary64_eq [of "14"]) (simp_all add: round_to_even_def Let_def)

lemma binary64_ellipse_41: "binary64 (34387223313482781504489885240889 / 1237940039285380274899124224) = 3817748707555555 / 137438953472"
  by (subst binary64_eq [of "14"]) (simp_all add: round_to_even_def Let_def)

lemma binary64_ellipse_42: "binary64 (20035545217251557 / 549755813888) = 5008886304312889 / 137438953472"
  by (subst binary64_eq [of "15"]) (simp_all add: round_to_even_def Let_def)

lemma binary64_ellipse_43: "binary64 (10628612401834667 / 274877906944) = 2657153100458667 / 68719476736"
  by (subst binary64_eq [of "15"]) (simp_all add: round_to_even_def Let_def)

lemma binary64_ellipse_44: "binary64 (1363589887176067013 / 35184372088832) = 665815374597689 / 17179869184"
  by (subst binary64_eq [of "15"]) (simp_all add: round_to_even_def Let_def)

lemma binary64_ellipse_45: "binary64 (5925145994126223 / 137438953472) = 5925145994126223 / 137438953472"
  by (subst binary64_eq [of "15"]) (simp_all add: round_to_even_def Let_def)

lemma binary64_ellipse_46: "binary64 (6780321704618667 / 137438953472) = 6780321704618667 / 137438953472"
  by (subst binary64_eq [of "15"]) (simp_all add: round_to_even_def Let_def)

lemma binary64_ellipse_47: "binary64 (63602608240617754584734333374009 / 1237940039285380274899124224) = 7061308009494755 / 137438953472"
  by (subst binary64_eq [of "15"]) (simp_all add: round_to_even_def Let_def)

lemma binary64_ellipse_48: "binary64 (7061308009494755 / 137438953472) = 7061308009494755 / 137438953472"
  by (subst binary64_eq [of "15"]) (simp_all add: round_to_even_def Let_def)

lemma binary64_ellipse_49: "binary64 (17193611656741393684275950023111 / 309485009821345068724781056) = 954437176888889 / 17179869184"
  by (subst binary64_eq [of "15"]) (simp_all add: round_to_even_def Let_def)

lemma binary64_ellipse_50: "binary64 (10017772608625777 / 137438953472) = 626110788039111 / 8589934592"
  by (subst binary64_eq [of "16"]) (simp_all add: round_to_even_def Let_def)

lemma binary64_ellipse_51: "binary64 (42514449607338659 / 549755813888) = 1328576550229333 / 17179869184"
  by (subst binary64_eq [of "16"]) (simp_all add: round_to_even_def Let_def)

lemma binary64_ellipse_52: "binary64 (2727179774352133015 / 35184372088832) = 2663261498390755 / 34359738368"
  by (subst binary64_eq [of "16"]) (simp_all add: round_to_even_def Let_def)

lemma binary64_ellipse_53: "binary64 (23700583976504885 / 274877906944) = 5925145994126221 / 68719476736"
  by (subst binary64_eq [of "16"]) (simp_all add: round_to_even_def Let_def)

lemma binary64_ellipse_54: "binary64 (13560643409237335 / 137438953472) = 1695080426154667 / 17179869184"
  by (subst binary64_eq [of "16"]) (simp_all add: round_to_even_def Let_def)

lemma binary64_ellipse_55: "binary64 (8596805828370698308153478712889 / 77371252455336267181195264) = 7635497415111113 / 68719476736"
  by (subst binary64_eq [of "16"]) (simp_all add: round_to_even_def Let_def)

lemma binary64_ellipse_56: "binary64 (6780321704618667 / 34359738368) = 6780321704618667 / 34359738368"
  by (subst binary64_eq [of "17"]) (simp_all add: round_to_even_def Let_def)

lemma binary64_ellipse_57: "binary64 (45972762418122986191679884856889 / 4722366482869645213696) = 5104001934222223 / 524288"
  by (subst binary64_eq [of "33"]) (simp_all add: round_to_even_def Let_def)

lemma binary64_ellipse_58: "binary64 (2873297651132687484520205880889 / 295147905179352825856) = 319000120888889 / 32768"
  by (subst binary64_eq [of "33"]) (simp_all add: round_to_even_def Let_def)

lemmas binary64_ellipse =
  binary64_ellipse_1 binary64_ellipse_2 binary64_ellipse_3 binary64_ellipse_4 binary64_ellipse_5
  binary64_ellipse_6 binary64_ellipse_7 binary64_ellipse_8 binary64_ellipse_9 binary64_ellipse_10
  binary64_ellipse_11 binary64_ellipse_12 binary64_ellipse_13 binary64_ellipse_14 binary64_ellipse_15
  binary64_ellipse_16 binary64_ellipse_17 binary64_ellipse_18 binary64_ellipse_19 binary64_ellipse_20
  binary64_ellipse_21 binary64_ellipse_22 binary64_ellipse_23 binary64_ellipse_24 binary64_ellipse_25
  binary64_ellipse_26 binary64_ellipse_27 binary64_ellipse_28 binary64_ellipse_29 binary64_ellipse_30
  binary64_ellipse_31 binary64_ellipse_32 binary64_ellipse_33 binary64_ellipse_34 binary64_ellipse_35
  binary64_ellipse_36 binary64_ellipse_37 binary64_ellipse_38 binary64_ellipse_39 binary64_ellipse_40
  binary64_ellipse_41 binary64_ellipse_42 binary64_ellipse_43 binary64_ellipse_44 binary64_ellipse_45
  binary64_ellipse_46 binary64_ellipse_47 binary64_ellipse_48 binary64_ellipse_49 binary64_ellipse_50
  binary64_ellipse_51 binary64_ellipse_52 binary64_ellipse_53 binary64_ellipse_54 binary64_ellipse_55
  binary64_ellipse_56 binary64_ellipse_57 binary64_ellipse_58

lemma fold_nth: "fold (\<lambda>k. g (xs ! k)) [0..<length xs] s = fold g xs s"
proof (induction xs arbitrary: s rule: rev_induct)
  case Nil
  show ?case
    by simp
next
  case (snoc a xs)
  have "fold (\<lambda>k. g ((xs @ [a]) ! k)) [0..<length xs] s = fold (\<lambda>k. g (xs ! k)) [0..<length xs] s"
    by (rule fold_cong) (simp_all add: nth_append)
  thus ?case
    by (simp add: snoc.IH)
qed

lemma FitEllipse_S3_fold:
  "FitEllipse_S3 rnd pts i j = fold (\<lambda>r s. rnd (s + rnd (r ! i * r ! j))) (FitEllipse_D2 pts) 0"
  using fold_nth [of "\<lambda>r s. rnd (s + rnd (r ! i * r ! j))" "FitEllipse_D2 pts" 0]
  by (simp add: FitEllipse_S3_def Let_def FitEllipse_D2_def)

text \<open>The five points of \<open>diagonal_pts\<close> lie on the line \<open>x = y\<close>; every operation on them
  is exact and the determinant is \<open>0\<close>.\<close>

lemma diagonal_pts_det: "FitEllipse_det binary64 diagonal_pts = 0"
  by (simp add: FitEllipse_det_def FitEllipse_var_def FitEllipse_mean_def diagonal_pts_def Let_def
      binary64_int)

text \<open>The six points of \<open>sloped_pts\<close> lie on the line \<open>x = 2 y - 20\<close>. Their mean
  \<open>(740 / 3, 370 / 3)\<close> is no \<^verbatim>\<open>double\<close>, and the determinant of the collinearity check comes
  out as \<open>- 2\<^sup>-\<^sup>1\<^sup>9\<close>, about \<open>- 1.9 \<times> 10\<^sup>-\<^sup>6\<close>, instead of \<open>0\<close>: the points pass the check. The sums
  of the scatter matrix are integers, which are computed exactly, and its determinant is
  \<open>0\<close>.\<close>

lemma sloped_pts_det: "FitEllipse_det binary64 sloped_pts = - (1 / 2 ^ 19)"
  by (simp add: FitEllipse_det_def FitEllipse_var_def FitEllipse_mean_def sloped_pts_def Let_def
      binary64_int binary64_ellipse)

lemma sloped_pts_det_S3: "FitEllipse_det_S3 binary64 sloped_pts = 0"
  by (simp add: FitEllipse_det_S3_def FitEllipse_S3_fold FitEllipse_D2_def sloped_pts_def Let_def
      binary64_int binary64_ellipse)

lemma sloped_pts_on_line: "on_line 1 (- 2) (- 20) sloped_pts"
  by (simp add: on_line_def sloped_pts_def)

subsection \<open>The claims\<close>

text \<open>C6: \<^verbatim>\<open>FitEllipse\<close> returns the invalid shape for fewer than five points and for
  points whose computed determinant \<open>var_x var_y - covar\<^sup>2\<close> (of the sums that are not
  divided by \<open>n\<close>) has magnitude below \<^verbatim>\<open>1e-6\<close>, whatever the rounding of the arithmetic.\<close>

theorem FitEllipse_rejects:
  "length pts < 5 \<or> \<bar>FitEllipse_det rnd pts\<bar> < rnd (1 / 10 ^ 6) \<longrightarrow>
     FitEllipse rnd pts = EllipseShape_default \<and> \<not> valid (FitEllipse rnd pts)"
  by (auto simp: FitEllipse_def)

lemma take_4_cross_pts: "length (take 4 cross_pts) < 5"
  by (simp add: cross_pts_def)

theorem FitEllipse_rejects_witness:
  "length (take 4 cross_pts) < 5 \<and> \<not> valid (FitEllipse binary64 (take 4 cross_pts))
   \<and> length diagonal_pts = 5
   \<and> \<bar>FitEllipse_det binary64 diagonal_pts\<bar> < binary64 (1 / 10 ^ 6)
   \<and> FitEllipse binary64 diagonal_pts = EllipseShape_default
   \<and> \<not> valid (FitEllipse binary64 diagonal_pts)"
proof -
  have small: "\<bar>FitEllipse_det binary64 diagonal_pts\<bar> < binary64 (1 / 10 ^ 6)"
    by (simp add: diagonal_pts_det binary64_ellipse)
  have "\<not> valid (FitEllipse binary64 (take 4 cross_pts))"
    using FitEllipse_rejects [of "take 4 cross_pts" binary64] take_4_cross_pts by blast
  moreover have "FitEllipse binary64 diagonal_pts = EllipseShape_default
      \<and> \<not> valid (FitEllipse binary64 diagonal_pts)"
    using FitEllipse_rejects [of diagonal_pts binary64] small by blast
  moreover have "length diagonal_pts = 5"
    by (simp add: diagonal_pts_def)
  ultimately show ?thesis
    using take_4_cross_pts small by simp
qed

text \<open>C7: the step that orders the axes, on computed axes \<open>a0\<close>, \<open>b0\<close> and a computed angle
  \<open>theta0\<close> of any value: a result that the final check accepts has the larger of the two
  as \<open>a\<close> and the smaller as \<open>b\<close>, which is positive, and its angle is \<open>theta0\<close>, increased
  by \<^verbatim>\<open>3.14159265358979323846 / 2.0\<close> when \<open>b0 > a0\<close>. So a valid result of \<^verbatim>\<open>FitEllipse\<close>,
  which is the result of these two steps on the axes computed from the points, has
  \<open>a \<ge> b > 0\<close>, whatever the rounding of the arithmetic.\<close>

theorem FitEllipse_valid_axes:
  "(valid (FitEllipse_validate c (FitEllipse_order rnd (a0, b0, theta0))) \<longrightarrow>
      0 < min a0 b0
      \<and> FitEllipse_validate c (FitEllipse_order rnd (a0, b0, theta0)) =
          \<lparr>ellipse_center = c, a_axis = max a0 b0, b_axis = min a0 b0,
           angle = (if b0 > a0 then rnd (theta0 + rnd (rnd 3.14159265358979323846 / 2.0)) else theta0),
           valid = True\<rparr>)
   \<and> (valid (FitEllipse rnd pts) \<longrightarrow>
        0 < b_axis (FitEllipse rnd pts) \<and> b_axis (FitEllipse rnd pts) \<le> a_axis (FitEllipse rnd pts)
        \<and> FitEllipse rnd pts =
            FitEllipse_validate
              \<lparr>x = fst (FitEllipse_mean rnd pts), y = snd (FitEllipse_mean rnd pts)\<rparr>
              (FitEllipse_order rnd (FitEllipse_axes rnd pts)))"
proof -
  have step: "0 < min a b
      \<and> FitEllipse_validate c (FitEllipse_order rnd (a, b, t)) =
          \<lparr>ellipse_center = c, a_axis = max a b, b_axis = min a b,
           angle = (if b > a then rnd (t + rnd (rnd 3.14159265358979323846 / 2.0)) else t),
           valid = True\<rparr>"
    if "valid (FitEllipse_validate c (FitEllipse_order rnd (a, b, t)))" for c a b t
    using that
    by (auto simp: FitEllipse_validate_def FitEllipse_order_def EllipseShape_init_def
        split: if_splits)
  have fit: "FitEllipse rnd pts =
            FitEllipse_validate
              \<lparr>x = fst (FitEllipse_mean rnd pts), y = snd (FitEllipse_mean rnd pts)\<rparr>
              (FitEllipse_order rnd (FitEllipse_axes rnd pts))"
    if "valid (FitEllipse rnd pts)"
    using that by (auto simp: FitEllipse_def split: if_splits prod.splits)
  have axes: "0 < b_axis (FitEllipse rnd pts) \<and> b_axis (FitEllipse rnd pts) \<le> a_axis (FitEllipse rnd pts)"
    if v: "valid (FitEllipse rnd pts)"
  proof -
    let ?c = "\<lparr>x = fst (FitEllipse_mean rnd pts), y = snd (FitEllipse_mean rnd pts)\<rparr>"
    obtain a b t where abt: "FitEllipse_axes rnd pts = (a, b, t)"
      by (cases "FitEllipse_axes rnd pts") auto
    have eq: "FitEllipse rnd pts = FitEllipse_validate ?c (FitEllipse_order rnd (a, b, t))"
      using fit [OF v] by (simp add: abt)
    hence "valid (FitEllipse_validate ?c (FitEllipse_order rnd (a, b, t)))"
      using v by simp
    from step [OF this] have pos: "0 < min a b"
      and r: "FitEllipse_validate ?c (FitEllipse_order rnd (a, b, t)) =
          \<lparr>ellipse_center = ?c, a_axis = max a b, b_axis = min a b,
           angle = (if b > a then rnd (t + rnd (rnd 3.14159265358979323846 / 2.0)) else t),
           valid = True\<rparr>"
      by blast+
    show ?thesis
      unfolding eq r using pos by simp
  qed
  from step fit axes show ?thesis
    by blast
qed

text \<open>The order step under double precision at computed axes \<open>3 < 5\<close> and the angle \<open>1 / 4\<close>,
  and \<^verbatim>\<open>FitEllipse\<close> in exact arithmetic on the points \<open>cross_pts\<close>.\<close>

lemma cross_pts_values:
  "FitEllipse_mean (\<lambda>v. v) cross_pts = (0, 0)"
  "FitEllipse_det (\<lambda>v. v) cross_pts = 16"
  "FitEllipse_covariance (\<lambda>v. v) cross_pts = (8 / 5, 2 / 5, 0)"
  by (simp_all add: FitEllipse_mean_def FitEllipse_det_def FitEllipse_var_def
      FitEllipse_covariance_def cross_pts_def Let_def)

lemma cross_pts_axes: "FitEllipse_axes (\<lambda>v. v) cross_pts = (2 * sqrt (8 / 5), 2 * sqrt (2 / 5), 0)"
  by (simp add: FitEllipse_axes_def cross_pts_values std_atan2_def)

lemma sqrt_small: "sqrt (8 / 5) \<le> 5000" "sqrt (2 / 5) \<le> 5000"
  by (rule real_le_lsqrt; simp)+

lemma cross_pts_valid: "valid (FitEllipse (\<lambda>v. v) cross_pts)"
proof -
  have len: "\<not> length cross_pts < 5"
    by (simp add: cross_pts_def)
  have s3: "\<not> \<bar>FitEllipse_det_S3 (\<lambda>v. v) cross_pts\<bar> < 1 / 10 ^ 10"
  proof (rule FitEllipse_det_S3_guard)
    show "5 \<le> length cross_pts"
      by (simp add: cross_pts_def)
    show "\<not> \<bar>FitEllipse_det (\<lambda>v. v) cross_pts\<bar> < 1 / 10 ^ 6"
      by (simp add: cross_pts_values)
  qed
  show ?thesis
    using sqrt_small s3
    by (simp add: FitEllipse_def len cross_pts_values cross_pts_axes std_isnan_def
        FitEllipse_validate_def FitEllipse_order_def EllipseShape_init_def)
qed

lemma order_example:
  "FitEllipse_validate \<lparr>x = 0, y = 0\<rparr> (FitEllipse_order binary64 (3, 5, 1 / 4)) =
     \<lparr>ellipse_center = \<lparr>x = 0, y = 0\<rparr>, a_axis = 5, b_axis = 3,
      angle = 1025017207358883 / 562949953421312, valid = True\<rparr>"
  by (simp add: FitEllipse_validate_def FitEllipse_order_def EllipseShape_init_def std_isnan_def
      binary64_ellipse)

theorem FitEllipse_valid_axes_witness:
  "valid (FitEllipse_validate \<lparr>x = 0, y = 0\<rparr> (FitEllipse_order binary64 (3, 5, 1 / 4)))
   \<and> FitEllipse_validate \<lparr>x = 0, y = 0\<rparr> (FitEllipse_order binary64 (3, 5, 1 / 4)) =
       \<lparr>ellipse_center = \<lparr>x = 0, y = 0\<rparr>, a_axis = 5, b_axis = 3,
        angle = binary64 (1 / 4 + binary64 (binary64 3.14159265358979323846 / 2.0)), valid = True\<rparr>
   \<and> valid (FitEllipse (\<lambda>v. v) cross_pts)
   \<and> a_axis (FitEllipse (\<lambda>v. v) cross_pts) = 2 * sqrt (8 / 5)
   \<and> b_axis (FitEllipse (\<lambda>v. v) cross_pts) = 2 * sqrt (2 / 5)
   \<and> 0 < b_axis (FitEllipse (\<lambda>v. v) cross_pts)
   \<and> b_axis (FitEllipse (\<lambda>v. v) cross_pts) \<le> a_axis (FitEllipse (\<lambda>v. v) cross_pts)"
proof -
  have v: "valid (FitEllipse_validate \<lparr>x = 0, y = 0\<rparr> (FitEllipse_order binary64 (3, 5, 1 / 4)))"
    by (simp add: order_example)
  note swapped = FitEllipse_valid_axes
    [where c = "\<lparr>x = 0, y = 0\<rparr>" and rnd = binary64 and ?a0.0 = 3 and ?b0.0 = 5 and ?theta0.0 = "1 / 4",
     THEN conjunct1, THEN mp, OF v]
  note fitted = FitEllipse_valid_axes
    [where rnd = "\<lambda>v. v" and pts = cross_pts, THEN conjunct2, THEN mp, OF cross_pts_valid]
  have ab: "a_axis (FitEllipse (\<lambda>v. v) cross_pts) = 2 * sqrt (8 / 5)"
    "b_axis (FitEllipse (\<lambda>v. v) cross_pts) = 2 * sqrt (2 / 5)"
    using sqrt_small
    by (simp_all add: fitted [THEN conjunct2, THEN conjunct2] cross_pts_values cross_pts_axes
        std_isnan_def FitEllipse_validate_def FitEllipse_order_def EllipseShape_init_def)
  from swapped fitted v cross_pts_valid ab show ?thesis
    by simp
qed

text \<open>C10: a point set of at least five points that has passed the collinearity check is
  rejected when the computed determinant of the scatter matrix \<^verbatim>\<open>S3\<close> has magnitude below
  \<^verbatim>\<open>1e-10\<close>, whatever the rounding of the arithmetic; the result is the default shape, which
  depends on no moment of the points.\<close>

theorem FitEllipse_det_S3_rejects:
  "5 \<le> length pts \<and> \<not> \<bar>FitEllipse_det rnd pts\<bar> < rnd (1 / 10 ^ 6)
     \<and> \<bar>FitEllipse_det_S3 rnd pts\<bar> < rnd (1 / 10 ^ 10) \<longrightarrow>
   FitEllipse rnd pts = EllipseShape_default \<and> \<not> valid (FitEllipse rnd pts)"
  by (auto simp: FitEllipse_def)

text \<open>Under double precision the points \<open>sloped_pts\<close> are rejected by this test and by no
  other.\<close>

theorem FitEllipse_det_S3_rejects_witness:
  "5 \<le> length sloped_pts
   \<and> \<not> \<bar>FitEllipse_det binary64 sloped_pts\<bar> < binary64 (1 / 10 ^ 6)
   \<and> \<bar>FitEllipse_det_S3 binary64 sloped_pts\<bar> < binary64 (1 / 10 ^ 10)
   \<and> FitEllipse binary64 sloped_pts = EllipseShape_default
   \<and> \<not> valid (FitEllipse binary64 sloped_pts)"
proof -
  have len: "5 \<le> length sloped_pts"
    by (simp add: sloped_pts_def)
  have passed: "\<not> \<bar>FitEllipse_det binary64 sloped_pts\<bar> < binary64 (1 / 10 ^ 6)"
    by (simp add: sloped_pts_det binary64_ellipse)
  have small: "\<bar>FitEllipse_det_S3 binary64 sloped_pts\<bar> < binary64 (1 / 10 ^ 10)"
    by (simp add: sloped_pts_det_S3 binary64_ellipse)
  from FitEllipse_det_S3_rejects [of sloped_pts binary64] len passed small show ?thesis
    by blast
qed

end
